theory Spec2Isabelle
  imports Main "HOL-Library.Word"
begin

unbundle bit_operations_syntax

section \<open>Data shared by the two programs\<close>

text \<open>
  The repository holds two Go programs: \<^verbatim>\<open>readmesync\<close>, the webhook server, and
  \<^verbatim>\<open>syncall\<close>, the client that asks the server for a bulk sync. Go's \<^verbatim>\<open>[]byte\<close> is a
  list of 8-bit words, Go's \<^verbatim>\<open>string\<close> is a list of \<^typ>\<open>char\<close> (a byte each), and the
  conversions \<^verbatim>\<open>[]byte(s)\<close> and \<^verbatim>\<open>string(b)\<close> are written out.
\<close>

type_synonym byte = "8 word"
type_synonym bytes = "byte list"
type_synonym u32 = "32 word"

datatype error = Err string

definition bytes_of_string :: "string \<Rightarrow> bytes" where
  "bytes_of_string s = map of_char s"

definition string_of_bytes :: "bytes \<Rightarrow> string" where
  "string_of_bytes b = map (\<lambda>v. char_of (unat v)) b"

section \<open>The standard library's digest: crypto/sha1, crypto/hmac, encoding/hex\<close>

text \<open>
  \<^verbatim>\<open>verifyWebhook\<close> and the client both compute \<^verbatim>\<open>hmac.New(sha1.New, secret)\<close>,
  write the payload, and hex-encode \<^verbatim>\<open>Sum(nil)\<close>. SHA-1 is written as FIPS 180-4
  gives it (padding to 64-byte blocks, the 80-word message schedule, 80 rounds),
  HMAC as RFC 2104 gives it, both as Go's packages implement them.
\<close>

definition be32 :: "bytes \<Rightarrow> u32" where
  "be32 bs = foldl (\<lambda>acc b. push_bit 8 acc OR ucast b) 0 bs"

definition put_be32 :: "u32 \<Rightarrow> bytes" where
  "put_be32 v = [ucast (drop_bit 24 v), ucast (drop_bit 16 v), ucast (drop_bit 8 v), ucast v]"

definition put_be64 :: "64 word \<Rightarrow> bytes" where
  "put_be64 v = map (\<lambda>i. ucast (drop_bit (8 * (7 - i)) v)) [0..<8]"

fun chunks :: "nat \<Rightarrow> nat \<Rightarrow> 'a list \<Rightarrow> 'a list list" where
  "chunks k 0 xs = []"
| "chunks k (Suc n) xs = take k xs # chunks k n (drop k xs)"

definition sha1_pad :: "bytes \<Rightarrow> bytes" where
  "sha1_pad m = m @ [0x80] @ replicate ((119 - length m mod 64) mod 64) 0
                  @ put_be64 (push_bit 3 (word_of_nat (length m)))"

text \<open>\<^verbatim>\<open>bits.RotateLeft32(x, k)\<close> for \<open>0 < k < 32\<close>: \<^verbatim>\<open>x<<k | x>>(32-k)\<close>.\<close>

definition RotateLeft32 :: "u32 \<Rightarrow> nat \<Rightarrow> u32" where
  "RotateLeft32 x k = push_bit k x OR drop_bit (32 - k) x"

text \<open>The schedule is kept newest word first: word \<open>t\<close> is made from words
  \<open>t - 3\<close>, \<open>t - 8\<close>, \<open>t - 14\<close> and \<open>t - 16\<close>.\<close>

fun sha1_schedule :: "nat \<Rightarrow> u32 list \<Rightarrow> u32 list" where
  "sha1_schedule 0 wr = wr"
| "sha1_schedule (Suc n) wr =
     sha1_schedule n (RotateLeft32 (wr ! 2 XOR wr ! 7 XOR wr ! 13 XOR wr ! 15) 1 # wr)"

type_synonym sha1_regs = "u32 \<times> u32 \<times> u32 \<times> u32 \<times> u32"

definition sha1_round :: "sha1_regs \<Rightarrow> nat \<times> u32 \<Rightarrow> sha1_regs" where
  "sha1_round r tw = (case r of (a, b, c, d, e) \<Rightarrow> case tw of (t, x) \<Rightarrow>
     (let f = (if t < 20 then (b AND c) OR (NOT b AND d)
               else if t < 40 then b XOR c XOR d
               else if t < 60 then ((b OR c) AND d) OR (b AND c)
               else b XOR c XOR d);
          k = (if t < 20 then 0x5A827999 else if t < 40 then 0x6ED9EBA1
               else if t < 60 then 0x8F1BBCDC else 0xCA62C1D6)
      in (RotateLeft32 a 5 + f + e + x + k, a, RotateLeft32 b 30, c, d)))"

definition sha1_block :: "sha1_regs \<Rightarrow> bytes \<Rightarrow> sha1_regs" where
  "sha1_block h p =
     (let ws = rev (sha1_schedule 64 (rev (map be32 (chunks 4 16 p))))
      in case h of (h0, h1, h2, h3, h4) \<Rightarrow>
         case foldl sha1_round h (zip [0..<80] ws) of (a, b, c, d, e) \<Rightarrow>
           (h0 + a, h1 + b, h2 + c, h3 + d, h4 + e))"

definition sha1_init :: sha1_regs where
  "sha1_init = (0x67452301, 0xEFCDAB89, 0x98BADCFE, 0x10325476, 0xC3D2E1F0)"

definition sha1_Sum :: "bytes \<Rightarrow> bytes" where
  "sha1_Sum m =
     (let p = sha1_pad m
      in case foldl sha1_block sha1_init (chunks 64 (length p div 64) p)
         of (h0, h1, h2, h3, h4) \<Rightarrow>
           put_be32 h0 @ put_be32 h1 @ put_be32 h2 @ put_be32 h3 @ put_be32 h4)"

text \<open>
  \<^verbatim>\<open>hmac.New\<close> hashes a key longer than the block size, pads it with zeros to 64
  bytes, and starts the inner digest with the key XOR \<^verbatim>\<open>0x36\<close>. The state keeps
  every byte written to the inner digest. \<^verbatim>\<open>Write\<close> passes the bytes on to the inner
  SHA-1 digest, whose \<^verbatim>\<open>Write\<close> returns \<^verbatim>\<open>(len(p), nil)\<close> on every path.
\<close>

record hmac =
  opad :: bytes
  ipad :: bytes
  inner :: bytes

definition hmac_New :: "bytes \<Rightarrow> hmac" where
  "hmac_New key =
     (let k = (if length key > 64 then sha1_Sum key else key);
          padded = k @ replicate (64 - length k) 0;
          ip = map (\<lambda>b. b XOR 0x36) padded
      in \<lparr>opad = map (\<lambda>b. b XOR 0x5c) padded, ipad = ip, inner = ip\<rparr>)"

definition hmac_Write :: "hmac \<Rightarrow> bytes \<Rightarrow> hmac \<times> nat \<times> error option" where
  "hmac_Write h p = (h\<lparr>inner := inner h @ p\<rparr>, length p, None)"

definition hmac_Sum :: "hmac \<Rightarrow> bytes \<Rightarrow> bytes" where
  "hmac_Sum h b = b @ sha1_Sum (opad h @ sha1_Sum (inner h))"

definition hextable :: string where
  "hextable = ''0123456789abcdef''"

definition hex_EncodeToString :: "bytes \<Rightarrow> string" where
  "hex_EncodeToString src =
     concat (map (\<lambda>v. [hextable ! unat (drop_bit 4 v), hextable ! unat (v AND 0x0f)]) src)"

text \<open>
  \<^verbatim>\<open>hmac.Equal\<close> is \<^verbatim>\<open>subtle.ConstantTimeCompare(mac1, mac2) == 1\<close>: 0 at once when the
  lengths differ, otherwise the OR of the bytewise XORs is compared with zero by
  \<^verbatim>\<open>ConstantTimeByteEq\<close>, which is \<^verbatim>\<open>int((uint32(x^y) - 1) >> 31)\<close>.
\<close>

definition ConstantTimeByteEq :: "byte \<Rightarrow> byte \<Rightarrow> int" where
  "ConstantTimeByteEq x y = uint (drop_bit 31 ((ucast (x XOR y) :: u32) - 1))"

definition ConstantTimeCompare :: "bytes \<Rightarrow> bytes \<Rightarrow> int" where
  "ConstantTimeCompare x y =
     (if length x \<noteq> length y then 0
      else ConstantTimeByteEq (foldl (\<lambda>v (a, b). v OR (a XOR b)) 0 (zip x y)) 0)"

definition hmac_Equal :: "bytes \<Rightarrow> bytes \<Rightarrow> bool" where
  "hmac_Equal mac1 mac2 = (ConstantTimeCompare mac1 mac2 = 1)"

section \<open>readmesync: the signature verifier\<close>

text \<open>
  \<^verbatim>\<open>func verifyWebhook(mac, body, secret []byte) (bool, error)\<close>, lines 99 to 107.
\<close>

definition verifyWebhook :: "bytes \<Rightarrow> bytes \<Rightarrow> bytes \<Rightarrow> bool \<times> error option" where
  "verifyWebhook mac body secret =
     (let h = hmac_New secret
      in case hmac_Write h body of (h', n, err) \<Rightarrow>
         (case err of
            Some e \<Rightarrow> (False, Some e)
          | None \<Rightarrow>
              (let expectedMac = hex_EncodeToString (hmac_Sum h' [])
               in (hmac_Equal mac (bytes_of_string expectedMac), None))))"

text \<open>What the sender computes (\<^verbatim>\<open>syncall/main.go\<close>, lines 42 to 47, and GitHub): the
  hex digest that goes after \<^verbatim>\<open>sha1=\<close> in the \<^verbatim>\<open>X-Hub-Signature\<close> header.\<close>

definition HMAC_SHA1 :: "bytes \<Rightarrow> bytes \<Rightarrow> bytes" where
  "HMAC_SHA1 secret b = hmac_Sum (fst (hmac_Write (hmac_New secret) b)) []"

definition sign :: "bytes \<Rightarrow> bytes \<Rightarrow> string" where
  "sign secret b = hex_EncodeToString (HMAC_SHA1 secret b)"

section \<open>readmesync: the collaborators outside the program\<close>

text \<open>
  The JSON payload struct \<^verbatim>\<open>request\<close> (lines 109 to 116) and the process
  configuration \<^verbatim>\<open>env\<close> (lines 36 to 44).
\<close>

record request =
  Ref :: string
  Repository_Name :: string
  Repository_URL :: string
  Repos :: "string list"

record env =
  githubToken :: string
  hookSecret :: bytes
  dir :: string
  hugoCmd :: string
  hugoConfig :: string
  hugoSource :: string
  hugoOutput :: string

text \<open>
  The inbound HTTP request as the handler reads it: the method, the headers (the
  keys in the canonical form the server gives them) and what
  \<^verbatim>\<open>ioutil.ReadAll(r.Body)\<close> yields. \<^verbatim>\<open>Header.Get\<close> is the first value of the key, and
  the empty string for a header that is absent.
\<close>

record http_Request =
  Method :: string
  Header :: "(string \<times> string) list"
  Body :: "error + bytes"

definition Header_Get :: "http_Request \<Rightarrow> string \<Rightarrow> string" where
  "Header_Get r k = (case map_of (Header r) k of None \<Rightarrow> [] | Some v \<Rightarrow> v)"

record http_Response =
  StatusCode :: int
  Status :: string
  RespBody :: "error + bytes"

text \<open>
  Everything the program calls outside itself is a field of the world: the JSON
  decoder, the HTTP client, the file system, the template, the clock and the site
  generator. The file path is kept as the argument list of \<^verbatim>\<open>filepath.Join\<close>.
\<close>

record world =
  json_Unmarshal :: "bytes \<Rightarrow> error + request"
  http_NewRequest :: "string \<Rightarrow> string \<Rightarrow> error option"
  http_Do :: "string \<Rightarrow> (string \<times> string) list \<Rightarrow> error + http_Response"
  os_Create :: "string list \<Rightarrow> error option"
  tmpl_Execute :: "string list \<Rightarrow> string \<Rightarrow> string \<Rightarrow> string \<Rightarrow> error option"
  time_Now :: string
  exec_CombinedOutput :: "string \<Rightarrow> string list \<Rightarrow> bytes \<times> error option"

section \<open>readmesync: the document fetcher\<close>

text \<open>
  \<^verbatim>\<open>func pullReadme(pkg, accessToken string) ([]byte, error)\<close>, lines 46 to 66. On a
  status other than 200 it returns the body together with the error.
\<close>

definition pullReadme :: "world \<Rightarrow> string \<Rightarrow> string \<Rightarrow> bytes \<times> error option" where
  "pullReadme w pkg accessToken =
     (let url = ''https://api.github.com/repos/darlinggo/'' @ pkg @ ''/readme''
      in case http_NewRequest w ''GET'' url of
           Some err \<Rightarrow> ([], Some err)
         | None \<Rightarrow>
            (case http_Do w url [(''Accept'', ''application/vnd.github.v3.raw''),
                                 (''Authorization'', ''token '' @ accessToken)] of
               Inl err \<Rightarrow> ([], Some err)
             | Inr resp \<Rightarrow>
                (case RespBody resp of
                   Inl err \<Rightarrow> ([], Some err)
                 | Inr body \<Rightarrow>
                    if StatusCode resp \<noteq> 200
                    then (body, Some (Err (pkg @ '': non-200 status: '' @ Status resp)))
                    else (body, None))))"

section \<open>readmesync: the fan-out aggregator\<close>

text \<open>
  \<^verbatim>\<open>func syncAll(repos []string, token string) map[string][]byte\<close>, lines 73 to 97,
  starts one goroutine per name, a goroutine that closes the channel once the wait
  group is back at zero, and drains the channel into the map. The goroutines are
  modelled one step at a time. A worker is about to call \<^verbatim>\<open>pullReadme\<close>
  (\<open>W_fetch\<close>), blocked in \<^verbatim>\<open>ch <- result{...}\<close> (\<open>W_send\<close>), about to run its deferred
  \<^verbatim>\<open>wg.Done()\<close> (\<open>W_exit\<close>), or gone (\<open>W_done\<close>). The calling goroutine is in the
  \<^verbatim>\<open>for _, repo := range repos\<close> loop with the names still to start (\<open>M_spawn\<close>),
  blocked in \<^verbatim>\<open>range resultChan\<close> (\<open>M_drain\<close>), holding a received result that it
  has not stored yet (\<open>M_store\<close>), or at \<^verbatim>\<open>return results\<close> (\<open>M_return\<close>).
\<close>

datatype worker_pc = W_fetch | W_send bytes | W_exit | W_done

datatype main_pc = M_spawn "string list" | M_drain | M_store string bytes | M_return

datatype closer_pc = C_absent | C_wait | C_done

datatype goroutine = G_main | G_worker nat | G_closer

record sync_state =
  caller :: main_pc
  workers :: "(string \<times> worker_pc) list"
  wg :: int
  closer :: closer_pc
  chan_closed :: bool
  results :: "string \<rightharpoonup> bytes"
  logged :: "error list"
  panicked :: bool

definition sync_init :: "string list \<Rightarrow> sync_state" where
  "sync_init repos =
     \<lparr>caller = M_spawn repos, workers = [], wg = 0, closer = C_absent, chan_closed = False,
      results = Map.empty, logged = [], panicked = False\<rparr>"

text \<open>
  One step of one goroutine; \<open>None\<close> when that goroutine is blocked, finished or
  not started, or when the program has panicked. The channel is unbuffered: a send
  completes only together with the receive of the draining caller, a send on a
  closed channel panics, and a receive on a closed channel ends the \<^verbatim>\<open>range\<close> loop.
  \<^verbatim>\<open>wg.Done()\<close> panics when the counter would go negative, \<^verbatim>\<open>wg.Wait()\<close> returns
  when the counter is zero.
\<close>

definition caller_step :: "sync_state \<Rightarrow> sync_state option" where
  "caller_step s =
     (case caller s of
        M_spawn (repo # rest) \<Rightarrow>
          Some (s\<lparr>wg := wg s + 1, workers := workers s @ [(repo, W_fetch)], caller := M_spawn rest\<rparr>)
      | M_spawn [] \<Rightarrow> Some (s\<lparr>closer := C_wait, caller := M_drain\<rparr>)
      | M_drain \<Rightarrow> if chan_closed s then Some (s\<lparr>caller := M_return\<rparr>) else None
      | M_store repo body \<Rightarrow> Some (s\<lparr>results := (results s)(repo \<mapsto> body), caller := M_drain\<rparr>)
      | M_return \<Rightarrow> None)"

definition worker_step :: "world \<Rightarrow> string \<Rightarrow> nat \<Rightarrow> sync_state \<Rightarrow> sync_state option" where
  "worker_step w token i s =
     (if i \<ge> length (workers s) then None
      else case workers s ! i of (r, pc) \<Rightarrow>
       (case pc of
          W_fetch \<Rightarrow>
            (case pullReadme w r token of
               (resp, Some err) \<Rightarrow>
                 Some (s\<lparr>logged := logged s @ [err], workers := (workers s)[i := (r, W_exit)]\<rparr>)
             | (resp, None) \<Rightarrow> Some (s\<lparr>workers := (workers s)[i := (r, W_send resp)]\<rparr>))
        | W_send body \<Rightarrow>
            if chan_closed s then Some (s\<lparr>panicked := True\<rparr>)
            else if caller s = M_drain
            then Some (s\<lparr>caller := M_store r body, workers := (workers s)[i := (r, W_exit)]\<rparr>)
            else None
        | W_exit \<Rightarrow>
            if wg s - 1 < 0 then Some (s\<lparr>panicked := True\<rparr>)
            else Some (s\<lparr>wg := wg s - 1, workers := (workers s)[i := (r, W_done)]\<rparr>)
        | W_done \<Rightarrow> None))"

definition closer_step :: "sync_state \<Rightarrow> sync_state option" where
  "closer_step s =
     (case closer s of
        C_wait \<Rightarrow> if wg s = 0 then Some (s\<lparr>chan_closed := True, closer := C_done\<rparr>) else None
      | C_absent \<Rightarrow> None
      | C_done \<Rightarrow> None)"

definition sync_step :: "world \<Rightarrow> string \<Rightarrow> goroutine \<Rightarrow> sync_state \<Rightarrow> sync_state option" where
  "sync_step w token g s =
     (if panicked s then None
      else case g of
        G_main \<Rightarrow> caller_step s
      | G_worker i \<Rightarrow> worker_step w token i s
      | G_closer \<Rightarrow> closer_step s)"

text \<open>A run follows a schedule, the goroutine that moves at each step; it is
  \<open>None\<close> when the schedule names a goroutine that cannot move.\<close>

fun sync_run :: "world \<Rightarrow> string \<Rightarrow> goroutine list \<Rightarrow> sync_state \<Rightarrow> sync_state option" where
  "sync_run w token [] s = Some s"
| "sync_run w token (g # gs) s =
     (case sync_step w token g s of None \<Rightarrow> None | Some s' \<Rightarrow> sync_run w token gs s')"

text \<open>No goroutine can move: the run is over (or deadlocked).\<close>

definition sync_stuck :: "world \<Rightarrow> string \<Rightarrow> sync_state \<Rightarrow> bool" where
  "sync_stuck w token s =
     (sync_step w token G_main s = None \<and> sync_step w token G_closer s = None \<and>
      list_all (\<lambda>i. sync_step w token (G_worker i) s = None) [0..<length (workers s)])"

text \<open>
  The mapping \<^verbatim>\<open>syncAll\<close> returns, as a function of the fetch outcomes: a name is a
  key exactly when its fetch returned no error. The handler's model calls this
  function (and drops the mapping, as line 161 does); the theorems below show that
  every complete run of the goroutines returns it. The world answers a fetch by
  its URL, so the outcome of a fetch is a function of the name.
\<close>

definition syncAll :: "world \<Rightarrow> string list \<Rightarrow> string \<Rightarrow> (string \<rightharpoonup> bytes)" where
  "syncAll w repos token =
     foldl (\<lambda>m r. case pullReadme w r token of
                     (resp, Some err) \<Rightarrow> m
                   | (resp, None) \<Rightarrow> m(r \<mapsto> resp)) Map.empty repos"

section \<open>readmesync: the webhook handler\<close>

text \<open>
  What a run of the handler leaves behind: the reply (the status passed to
  \<^verbatim>\<open>WriteHeader\<close> and the bytes passed to \<^verbatim>\<open>Write\<close>, or a panic that ends the
  handler with no reply written), and the calls it made outside itself, in order.
\<close>

datatype reply = Reply nat bytes | Panic string

datatype effect =
    E_pullReadme string
  | E_log string
  | E_os_Create "string list"
  | E_tmpl_Execute "string list" string
  | E_exec string "string list"

record outcome =
  reply :: reply
  effects :: "effect list"

definition respond :: "nat \<Rightarrow> effect list \<Rightarrow> outcome" where
  "respond code es = \<lparr>reply = Reply code [], effects = es\<rparr>"

definition Error :: "error \<Rightarrow> string" where
  "Error err = (case err of Err m \<Rightarrow> m)"

text \<open>\<^verbatim>\<open>s[n:]\<close> panics when \<open>n\<close> is past the end of the string.\<close>

definition slice_from :: "string \<Rightarrow> nat \<Rightarrow> string option" where
  "slice_from s n = (if n > length s then None else Some (drop n s))"

text \<open>\<^verbatim>\<open>strings.Split(s, sep)\<close> for a separator of one character, which is how the
  handler calls it (\<^verbatim>\<open>"/"\<close>): the pieces between the separators, one more piece
  than there are separators.\<close>

fun strings_Split :: "string \<Rightarrow> char \<Rightarrow> string list" where
  "strings_Split [] sep = [[]]"
| "strings_Split (c # cs) sep =
     (if c = sep then [] # strings_Split cs sep
      else (case strings_Split cs sep of
              [] \<Rightarrow> [[c]]
            | p # ps \<Rightarrow> (c # p) # ps))"

text \<open>The calls \<^verbatim>\<open>syncAll\<close> makes, in the order of the names: a fetch for each name
  and a log line for each failure.\<close>

definition syncAll_effects :: "world \<Rightarrow> string list \<Rightarrow> string \<Rightarrow> effect list" where
  "syncAll_effects w repos token =
     concat (map (\<lambda>r. E_pullReadme r #
                       (case snd (pullReadme w r token) of
                          Some err \<Rightarrow> [E_log (Error err)]
                        | None \<Rightarrow> [])) repos)"

text \<open>Lines 184 to 206: one content file per entry of \<^verbatim>\<open>readmes\<close>. \<open>Inl\<close> is the
  early return with its reply, \<open>Inr\<close> the effects so far when the loop ends.\<close>

fun write_readmes :: "world \<Rightarrow> env \<Rightarrow> (string \<times> bytes) list \<Rightarrow> effect list \<Rightarrow> outcome + effect list" where
  "write_readmes w e [] es = Inr es"
| "write_readmes w e ((repo, readme) # rest) es =
     (let path = [hugoSource e, dir e, repo @ ''.md'']
      in case os_Create w path of
           Some err \<Rightarrow> Inl (respond 500 (es @ [E_os_Create path, E_log (Error err)]))
         | None \<Rightarrow>
            (case tmpl_Execute w path repo (string_of_bytes readme) (time_Now w) of
               Some err \<Rightarrow>
                 Inl (respond 500 (es @ [E_os_Create path, E_tmpl_Execute path repo, E_log (Error err)]))
             | None \<Rightarrow> write_readmes w e rest (es @ [E_os_Create path, E_tmpl_Execute path repo])))"

text \<open>Line 207: the arguments of the site generator, each path between double
  quotes (\<open>CHR 0x22\<close>).\<close>

definition hugo_args :: "env \<Rightarrow> string list" where
  "hugo_args e = [''--config='' @ [CHR 0x22] @ hugoConfig e @ [CHR 0x22],
                  ''--source='' @ [CHR 0x22] @ hugoSource e @ [CHR 0x22],
                  ''--output='' @ [CHR 0x22] @ hugoOutput e @ [CHR 0x22]]"

text \<open>Lines 184 to 214: the files, then the site generator once.\<close>

definition ServeHTTP_output :: "world \<Rightarrow> env \<Rightarrow> (string \<times> bytes) list \<Rightarrow> effect list \<Rightarrow> outcome" where
  "ServeHTTP_output w e readmes es =
     (case write_readmes w e readmes es of
        Inl r \<Rightarrow> r
      | Inr es' \<Rightarrow>
         (case exec_CombinedOutput w (hugoCmd e) (hugo_args e) of
            (output, Some err) \<Rightarrow>
              respond 500 (es' @ [E_exec (hugoCmd e) (hugo_args e), E_log (Error err)])
          | (output, None) \<Rightarrow>
              respond 200 (es' @ [E_exec (hugoCmd e) (hugo_args e), E_log (string_of_bytes output)])))"

text \<open>Lines 159 to 182: the event decides which documents are fetched. The
  bulk-sync branch returns 200 once \<^verbatim>\<open>syncAll\<close> is back; only a push goes on to the
  files and the site generator.\<close>

definition ServeHTTP_dispatch :: "world \<Rightarrow> env \<Rightarrow> string \<Rightarrow> request \<Rightarrow> outcome" where
  "ServeHTTP_dispatch w e event req =
     (if event = ''sync-all''
      then (let readmes = syncAll w (Repos req) (githubToken e)
            in respond 200 (syncAll_effects w (Repos req) (githubToken e)))
      else
        (let ref = strings_Split (Ref req) (CHR ''/'')
         in if length ref \<noteq> 3 then respond 400 []
            else
              (let branch = ref ! 2
               in if branch \<noteq> ''master'' then respond 200 []
                  else
                    (case pullReadme w (Repository_Name req) (githubToken e) of
                       (readme, Some err) \<Rightarrow>
                         respond 500 [E_pullReadme (Repository_Name req), E_log (Error err)]
                     | (readme, None) \<Rightarrow>
                         ServeHTTP_output w e [(Repository_Name req, readme)]
                           [E_pullReadme (Repository_Name req)]))))"

text \<open>Lines 137 to 157: what the handler does with the verifier's answer.\<close>

definition ServeHTTP_verified :: "world \<Rightarrow> env \<Rightarrow> string \<Rightarrow> bytes \<Rightarrow> bool \<times> error option \<Rightarrow> outcome" where
  "ServeHTTP_verified w e event body v =
     (case v of
        (ok, Some err) \<Rightarrow> respond 500 []
      | (ok, None) \<Rightarrow>
          if \<not> ok then respond 400 []
          else if event = ''ping'' then \<lparr>reply = Reply 200 (bytes_of_string ''pong''), effects = []\<rparr>
          else (case json_Unmarshal w body of
                  Inl err \<Rightarrow> respond 400 []
                | Inr req \<Rightarrow> ServeHTTP_dispatch w e event req))"

text \<open>\<^verbatim>\<open>func (e env) ServeHTTP(w http.ResponseWriter, r *http.Request)\<close>, lines 118
  to 215.\<close>

definition ServeHTTP :: "world \<Rightarrow> env \<Rightarrow> http_Request \<Rightarrow> outcome" where
  "ServeHTTP w e r =
     (if Method r \<noteq> ''POST'' then respond 405 []
      else
        (let event = Header_Get r ''X-Github-Event''
         in if event \<noteq> ''push'' \<and> event \<noteq> ''ping'' then respond 400 []
            else
              (case Body r of
                 Inl err \<Rightarrow> respond 500 []
               | Inr body \<Rightarrow>
                  (case slice_from (Header_Get r ''X-Hub-Signature'') 5 of
                     None \<Rightarrow> \<lparr>reply = Panic ''slice bounds out of range'', effects = []\<rparr>
                   | Some mac \<Rightarrow>
                       ServeHTTP_verified w e event body
                         (verifyWebhook (bytes_of_string mac) body (hookSecret e))))))"

text \<open>How many times the handler called \<^verbatim>\<open>pullReadme\<close>, and whether it wrote a file,
  rendered the template or ran the site generator.\<close>

definition fetches :: "effect list \<Rightarrow> string list" where
  "fetches es = concat (map (\<lambda>x. case x of E_pullReadme r \<Rightarrow> [r] | _ \<Rightarrow> []) es)"

definition writes_or_generates :: "effect list \<Rightarrow> bool" where
  "writes_or_generates es =
     list_ex (\<lambda>x. case x of E_os_Create p \<Rightarrow> True | E_tmpl_Execute p n \<Rightarrow> True
                   | E_exec c a \<Rightarrow> True | _ \<Rightarrow> False) es"

section \<open>syncall: the client\<close>

text \<open>
  \<^verbatim>\<open>syncall/main.go\<close>, lines 36 to 53: the request the client sends for a payload
  \<open>b\<close> (the JSON of the names) and a secret.
\<close>

definition syncall_request :: "string \<Rightarrow> bytes \<Rightarrow> http_Request" where
  "syncall_request secret b =
     \<lparr>Method = ''POST'',
      Header = [(''X-Hub-Signature'', ''sha1='' @ sign (bytes_of_string secret) b),
                (''X-Github-Event'', ''sync-all'')],
      Body = Inr b\<rparr>"

section \<open>Auxiliary notions for the proofs\<close>

text \<open>
  A request whose signature verifies: the body could be read and the verifier
  answers true for the header without its first five characters.
\<close>

definition signature_verifies :: "env \<Rightarrow> http_Request \<Rightarrow> bool" where
  "signature_verifies e r =
     (case Body r of
        Inl err \<Rightarrow> False
      | Inr body \<Rightarrow>
          fst (verifyWebhook (bytes_of_string (drop 5 (Header_Get r ''X-Hub-Signature'')))
                 body (hookSecret e)))"

text \<open>
  For the goroutines of \<^verbatim>\<open>syncAll\<close>: what a fetch yields for a name (\<open>fetched\<close>), the
  mapping with the result the caller holds but has not stored yet (\<open>stored\<close>), the
  workers not yet gone, which the wait group counts (\<open>live\<close>), a bound on the steps
  still to come (\<open>sync_measure\<close>), and the invariant of the reachable states
  (\<open>sync_inv\<close>): the wait group counts the live workers, the closer exists once the
  loop that starts the workers is over, the channel is closed only when the counter
  is zero, a blocked sender holds what its fetch returned, and a name is in the
  mapping exactly when one of its workers has handed over its result.
\<close>

definition live :: "worker_pc \<Rightarrow> nat" where
  "live pc = (case pc of W_done \<Rightarrow> 0 | _ \<Rightarrow> 1)"

definition weight :: "worker_pc \<Rightarrow> nat" where
  "weight pc = (case pc of W_fetch \<Rightarrow> 4 | W_send b \<Rightarrow> 3 | W_exit \<Rightarrow> 1 | W_done \<Rightarrow> 0)"

definition sync_measure :: "sync_state \<Rightarrow> nat" where
  "sync_measure s =
     (case caller s of M_spawn rest \<Rightarrow> 5 * length rest + 3 | M_drain \<Rightarrow> 1
        | M_store r b \<Rightarrow> 2 | M_return \<Rightarrow> 0)
     + sum_list (map (\<lambda>p. weight (snd p)) (workers s))
     + (case closer s of C_wait \<Rightarrow> 1 | _ \<Rightarrow> 0)
     + (if panicked s then 0 else 1)"

definition fetched :: "world \<Rightarrow> string \<Rightarrow> string \<Rightarrow> bytes option" where
  "fetched w token r = (case pullReadme w r token of (resp, Some err) \<Rightarrow> None | (resp, None) \<Rightarrow> Some resp)"

definition left_pc :: "worker_pc \<Rightarrow> bool" where
  "left_pc pc = (case pc of W_exit \<Rightarrow> True | W_done \<Rightarrow> True | _ \<Rightarrow> False)"

definition stored :: "sync_state \<Rightarrow> (string \<rightharpoonup> bytes)" where
  "stored s = (case caller s of M_store r b \<Rightarrow> (results s)(r \<mapsto> b) | _ \<Rightarrow> results s)"

definition to_spawn :: "sync_state \<Rightarrow> string list" where
  "to_spawn s = (case caller s of M_spawn rest \<Rightarrow> rest | _ \<Rightarrow> [])"

definition spawning :: "sync_state \<Rightarrow> bool" where
  "spawning s = (case caller s of M_spawn rest \<Rightarrow> True | _ \<Rightarrow> False)"

definition has_left :: "sync_state \<Rightarrow> string \<Rightarrow> bool" where
  "has_left s r = (\<exists>i<length (workers s). fst (workers s ! i) = r \<and> left_pc (snd (workers s ! i)))"

definition sync_inv :: "world \<Rightarrow> string \<Rightarrow> string list \<Rightarrow> sync_state \<Rightarrow> bool" where
  "sync_inv w token repos s =
     (\<not> panicked s \<and>
      wg s = int (sum_list (map (\<lambda>p. live (snd p)) (workers s))) \<and>
      map fst (workers s) @ to_spawn s = repos \<and>
      (closer s = C_absent) = spawning s \<and>
      chan_closed s = (closer s = C_done) \<and>
      (chan_closed s \<longrightarrow> wg s = 0) \<and>
      (caller s = M_return \<longrightarrow> chan_closed s) \<and>
      (\<forall>i<length (workers s). \<forall>b. snd (workers s ! i) = W_send b \<longrightarrow>
          pullReadme w (fst (workers s ! i)) token = (b, None)) \<and>
      (\<forall>r. stored s r = (if has_left s r then fetched w token r else None)))"

text \<open>
  Examples for the theorems below: a configuration, and a signature with the lowest
  bit of its first byte flipped.
\<close>

definition example_env :: env where
  "example_env =
     \<lparr>githubToken = ''t0ken'', hookSecret = bytes_of_string ''s3cret'', dir = ''content/project'',
      hugoCmd = ''/bin/hugo'', hugoConfig = ''config.toml'', hugoSource = ''/hugoSource'',
      hugoOutput = ''/public''\<rparr>"

definition flip_first_bit :: "bytes \<Rightarrow> bytes" where
  "flip_first_bit m = (case m of [] \<Rightarrow> [] | x # xs \<Rightarrow> (x XOR 1) # xs)"

text \<open>
  Example payloads with the struct the JSON decoder makes of each, a world in which
  the documents \<^verbatim>\<open>foo\<close> and \<^verbatim>\<open>a\<close> exist and every other fetch answers 404, and
  example requests: signed as GitHub and the client sign them, with a forged
  signature, with a body that cannot be read, and with malformed signature headers.
\<close>

definition push_master_body :: string where
  \<open>push_master_body = ''{"ref":"refs/heads/master","repository":{"name":"foo"}}''\<close>

definition push_dev_body :: string where
  \<open>push_dev_body = ''{"ref":"refs/heads/dev","repository":{"name":"foo"}}''\<close>

definition push_short_body :: string where
  \<open>push_short_body = ''{"ref":"refs/heads","repository":{"name":"foo"}}''\<close>

definition sync_body :: string where
  \<open>sync_body = ''{"repos":["a","b"]}''\<close>

definition example_bodies :: "(string \<times> request) list" where
  "example_bodies =
     [(push_master_body,
       \<lparr>Ref = ''refs/heads/master'', Repository_Name = ''foo'', Repository_URL = [], Repos = []\<rparr>),
      (push_dev_body,
       \<lparr>Ref = ''refs/heads/dev'', Repository_Name = ''foo'', Repository_URL = [], Repos = []\<rparr>),
      (push_short_body,
       \<lparr>Ref = ''refs/heads'', Repository_Name = ''foo'', Repository_URL = [], Repos = []\<rparr>),
      (sync_body,
       \<lparr>Ref = [], Repository_Name = [], Repository_URL = [], Repos = [''a'', ''b'']\<rparr>)]"

definition example_world :: world where
  "example_world =
     \<lparr>json_Unmarshal = (\<lambda>b. case map_of example_bodies (string_of_bytes b) of
                                None \<Rightarrow> Inl (Err ''invalid character'')
                              | Some req \<Rightarrow> Inr req),
      http_NewRequest = (\<lambda>m u. None),
      http_Do = (\<lambda>u h.
         if u = ''https://api.github.com/repos/darlinggo/foo/readme''
         then Inr \<lparr>StatusCode = 200, Status = ''200 OK'', RespBody = Inr (bytes_of_string ''# foo'')\<rparr>
         else if u = ''https://api.github.com/repos/darlinggo/a/readme''
         then Inr \<lparr>StatusCode = 200, Status = ''200 OK'', RespBody = Inr (bytes_of_string ''# a'')\<rparr>
         else Inr \<lparr>StatusCode = 404, Status = ''404 Not Found'', RespBody = Inr (bytes_of_string ''Not Found'')\<rparr>),
      os_Create = (\<lambda>p. None),
      tmpl_Execute = (\<lambda>p n r d. None),
      time_Now = ''2016-03-01T12:00:00Z'',
      exec_CombinedOutput = (\<lambda>c a. ([], None))\<rparr>"

text \<open>A push to \<^verbatim>\<open>master\<close> of the repository \<^verbatim>\<open>b\<close>, whose document does not exist, and
  the example world with a decoder that knows this payload too.\<close>

definition push_missing_body :: string where
  \<open>push_missing_body = ''{"ref":"refs/heads/master","repository":{"name":"b"}}''\<close>

definition example_world2 :: world where
  "example_world2 = example_world\<lparr>json_Unmarshal := (\<lambda>b.
      if string_of_bytes b = push_missing_body
      then Inr \<lparr>Ref = ''refs/heads/master'', Repository_Name = ''b'', Repository_URL = [], Repos = []\<rparr>
      else json_Unmarshal example_world b)\<rparr>"

text \<open>A signed POST request for an event and a body, as GitHub and the client send it.\<close>

definition signed_request :: "env \<Rightarrow> string \<Rightarrow> string \<Rightarrow> http_Request" where
  "signed_request e event body =
     \<lparr>Method = ''POST'',
      Header = [(''X-Github-Event'', event),
                (''X-Hub-Signature'', ''sha1='' @ sign (hookSecret e) (bytes_of_string body))],
      Body = Inr (bytes_of_string body)\<rparr>"


definition unreadable_request :: http_Request where
  "unreadable_request =
     \<lparr>Method = ''POST'',
      Header = [(''X-Github-Event'', ''push''), (''X-Hub-Signature'', ''sha1=deadbeef'')],
      Body = Inl (Err ''unexpected EOF'')\<rparr>"

definition unsigned_request :: http_Request where
  "unsigned_request =
     \<lparr>Method = ''POST'', Header = [(''X-Github-Event'', ''ping'')],
      Body = Inr (bytes_of_string ''{}'')\<rparr>"

definition short_signature_request :: http_Request where
  "short_signature_request =
     \<lparr>Method = ''POST'', Header = [(''X-Github-Event'', ''ping''), (''X-Hub-Signature'', ''sha1'')],
      Body = Inr (bytes_of_string ''{}'')\<rparr>"

definition wrong_prefix_request :: "env \<Rightarrow> http_Request" where
  "wrong_prefix_request e =
     \<lparr>Method = ''POST'',
      Header = [(''X-Github-Event'', ''ping''),
                (''X-Hub-Signature'', ''md5=='' @ sign (hookSecret e) (bytes_of_string ''{}''))],
      Body = Inr (bytes_of_string ''{}'')\<rparr>"

text \<open>
  An example run of \<^verbatim>\<open>syncAll\<close> for the names \<^verbatim>\<open>a\<close> and \<^verbatim>\<open>b\<close> in the example world,
  where the fetch of \<^verbatim>\<open>b\<close> fails: the schedule, with the workers interleaved, and
  the state it ends in.
\<close>

definition example_schedule :: "goroutine list" where
  "example_schedule =
     [G_main, G_main, G_main, G_worker 1, G_worker 0, G_worker 0, G_worker 1, G_main,
      G_worker 0, G_closer, G_main]"

definition example_final :: sync_state where
  "example_final =
     \<lparr>caller = M_return, workers = [(''a'', W_done), (''b'', W_done)], wg = 0, closer = C_done,
      chan_closed = True, results = [''a'' \<mapsto> bytes_of_string ''# a''],
      logged = [Err ''b: non-200 status: 404 Not Found''], panicked = False\<rparr>"

section \<open>Facts about the digest and the verifier\<close>

lemma unat_ucast_byte: "unat (ucast (v::byte) :: u32) = unat v"
proof -
  have "unat v < 2 ^ 8" using unsigned_less [of v, where 'a = nat] by simp
  then have "unat v < 2 ^ 32" by simp
  then show ?thesis by (simp add: unsigned_ucast_eq take_bit_nat_eq_self_iff)
qed

lemma ucast_byte_eq_0: "(ucast (v::byte) :: u32) = 0 \<longleftrightarrow> v = 0"
  using unat_ucast_byte [of v] unsigned_eq_0_iff [of v, where 'a = nat]
    unsigned_eq_0_iff [of "ucast v :: u32", where 'a = nat] by simp

lemma ByteEq_zero: "ConstantTimeByteEq v 0 = (if v = 0 then 1 else 0)"
proof (cases "v = 0")
  case True
  have "drop_bit 31 (- 1 :: u32) = 1"
    by (rule bit_word_eqI) (auto simp: bit_simps)
  then show ?thesis using True by (simp add: ConstantTimeByteEq_def)
next
  case False
  have lt: "unat v < 2 ^ 8" using unsigned_less [of v, where 'a = nat] by simp
  have nz: "(ucast v :: u32) \<noteq> 0" using False by (simp add: ucast_byte_eq_0)
  have "unat ((ucast v :: u32) - 1) = unat v - 1"
    using unat_minus_one [OF nz] unat_ucast_byte [of v] by simp
  then have "unat (drop_bit 31 ((ucast v :: u32) - 1)) = 0"
    using lt unfolding unat_drop_bit_eq by (simp add: drop_bit_eq_div)
  then have "drop_bit 31 ((ucast v :: u32) - 1) = 0"
    by (simp only: unsigned_eq_0_iff)
  then show ?thesis using False by (simp add: ConstantTimeByteEq_def)
qed

lemma xor_eq_0_byte: "(a::byte) XOR b = 0 \<longleftrightarrow> a = b"
proof
  assume "a XOR b = 0"
  then have "a XOR (a XOR b) = a XOR 0" by (rule arg_cong)
  then show "a = b" by (simp add: xor.assoc [symmetric])
next
  assume "a = b"
  then show "a XOR b = 0" by simp
qed

lemma or_xor_zero:
  "length x = length y \<Longrightarrow>
   (foldl (\<lambda>v (a, b). v OR (a XOR b)) (acc::byte) (zip x y) = 0) = (acc = 0 \<and> x = y)"
proof (induction x y arbitrary: acc rule: list_induct2)
  case Nil
  then show ?case by simp
next
  case (Cons a x b y)
  have "(foldl (\<lambda>v (a, b). v OR (a XOR b)) acc (zip (a # x) (b # y)) = 0)
      = (foldl (\<lambda>v (a, b). v OR (a XOR b)) (acc OR (a XOR b)) (zip x y) = 0)"
    by simp
  also have "\<dots> = (acc OR (a XOR b) = 0 \<and> x = y)"
    by (rule Cons.IH)
  also have "\<dots> = (acc = 0 \<and> a # x = b # y)"
    by (simp only: or_eq_0_iff xor_eq_0_byte list.inject conj_assoc)
  finally show ?case .
qed

lemma hmac_Equal_iff: "hmac_Equal x y \<longleftrightarrow> x = y"
proof (cases "length x = length y")
  case True
  have "(ConstantTimeCompare x y = 1) = (foldl (\<lambda>v (a, b). v OR (a XOR b)) (0::byte) (zip x y) = 0)"
    using True by (simp only: ConstantTimeCompare_def ByteEq_zero) simp
  then show ?thesis using or_xor_zero [OF True, of 0] by (simp only: hmac_Equal_def) simp?
next
  case False
  then have "x \<noteq> y" by auto
  then show ?thesis using False by (simp add: hmac_Equal_def ConstantTimeCompare_def)
qed

lemma verifyWebhook_eq:
  "verifyWebhook mac body secret = (mac = bytes_of_string (sign secret body), None)"
  by (simp only: verifyWebhook_def sign_def HMAC_SHA1_def hmac_Write_def hmac_Equal_iff Let_def
        prod.case option.case fst_conv)

lemma length_put_be32: "length (put_be32 v) = 4"
  by (simp add: put_be32_def)

lemma length_sha1_Sum: "length (sha1_Sum m) = 20"
proof (cases "foldl sha1_block sha1_init (chunks 64 (length (sha1_pad m) div 64) (sha1_pad m))"
    rule: prod_cases5)
  case (fields h0 h1 h2 h3 h4)
  then show ?thesis
    by (simp add: sha1_Sum_def Let_def length_put_be32)
qed

lemma length_hex_EncodeToString: "length (hex_EncodeToString src) = 2 * length src"
  by (induction src) (simp_all add: hex_EncodeToString_def)

lemma length_sign: "length (sign secret b) = 40"
  by (simp add: sign_def HMAC_SHA1_def length_hex_EncodeToString hmac_Sum_def length_sha1_Sum)

lemma unat_of_char_byte: "unat (of_char c :: byte) = of_char c"
proof -
  have "(of_char c :: byte) = of_nat (of_char c)" by (simp only: of_nat_of_char)
  then have "unat (of_char c :: byte) = (of_char c :: nat) mod 2 ^ 8"
    by (simp only: unat_of_nat) simp
  then show ?thesis by simp
qed

lemma bytes_of_string_eq_iff: "bytes_of_string a = bytes_of_string b \<longleftrightarrow> a = b"
proof -
  have "inj (of_char :: char \<Rightarrow> byte)"
  proof (rule injI)
    fix c d :: char
    assume "(of_char c :: byte) = of_char d"
    then have "unat (of_char c :: byte) = unat (of_char d :: byte)" by simp
    then have "(of_char c :: nat) = of_char d" by (simp only: unat_of_char_byte)
    then show "c = d" by simp
  qed
  then show ?thesis by (simp add: bytes_of_string_def inj_map_eq_map)
qed

text \<open>
  The first example of FIPS 180: the SHA-1 digest of \<^verbatim>\<open>abc\<close>, computed step by step
  from the definitions (padding, the 16 words of the block, the schedule of 80
  words, the 80 rounds).
\<close>

lemma upt_8: "[0..<8] = [0,1,2,3,4,5,6,7]"
  by (simp add: upt_conv_Cons)

lemma rep52: "replicate 52 (0::byte) = [0,0,0,0,0,0,0,0,0,0,0,0,0,0,0,0,0,0,0,0,0,0,0,0,0,0,0,0,0,0,0,0,0,0,0,0,0,0,0,0,0,0,0,0,0,0,0,0,0,0,0,0]"
  by (simp add: numeral_eq_Suc)


lemma pad_abc: "sha1_pad (bytes_of_string ''abc'') =
   [0x61, 0x62, 0x63, 0x80] @ replicate 52 0 @ [0,0,0,0,0,0,0,0x18]"
  by (simp add: sha1_pad_def bytes_of_string_def put_be64_def upt_8)


lemma chunks_numeral:
  "chunks k (numeral n) xs = take k xs # chunks k (pred_numeral n) (drop k xs)"
  by (simp add: numeral_eq_Suc)

lemma sha1_schedule_numeral:
  "sha1_schedule (numeral n) wr =
     sha1_schedule (pred_numeral n) (RotateLeft32 (wr ! 2 XOR wr ! 7 XOR wr ! 13 XOR wr ! 15) 1 # wr)"
  by (simp add: numeral_eq_Suc)

lemma words_abc: "map be32 (chunks 4 16 (sha1_pad (bytes_of_string ''abc''))) =
   [0x61626380, 0,0,0,0,0,0,0,0,0,0,0,0,0,0, 0x18]"
  by (simp add: pad_abc rep52 chunks_numeral be32_def)


lemma sched_abc: "rev (sha1_schedule 64 (rev [0x61626380, 0,0,0,0,0,0,0,0,0,0,0,0,0,0, 0x18])) =
   [1633837952, 0, 0, 0, 0, 0, 0, 0, 0, 0, 0, 0, 0, 0, 0, 24, 3267675904, 0, 48, 2240384513, 0, 96, 185801731, 48, 2240384705, 371603462, 0, 384, 743206924, 240, 2477765895, 1486413896, 2392494594, 1536, 2972827888, 371604422, 1321128990, 1650688161, 371603462, 6336, 3537975492, 3840, 989548665, 2307785957, 3803855915, 24768, 87701453, 1950713159, 3667138029, 641206806, 1650688929, 1321161950, 943043659, 62976, 512018339, 2564836760, 1696405152, 1650822305, 1166361814, 1146637495, 2074109465, 1669377698, 182801001, 1652246945, 2094292125, 983040, 4216354106, 3966199272, 3124505570, 6340608, 976735493, 1166362356, 3092880854, 940186150, 31465987, 3888919638, 3873835881, 16124416, 1469443919, 2184054905]"
  by (simp add: sha1_schedule_numeral RotateLeft32_def)

lemma rounds_abc: "foldl sha1_round sha1_init (zip [0..<80] [1633837952, 0, 0, 0, 0, 0, 0, 0, 0, 0, 0, 0, 0, 0, 0, 24, 3267675904, 0, 48, 2240384513, 0, 96, 185801731, 48, 2240384705, 371603462, 0, 384, 743206924, 240, 2477765895, 1486413896, 2392494594, 1536, 2972827888, 371604422, 1321128990, 1650688161, 371603462, 6336, 3537975492, 3840, 989548665, 2307785957, 3803855915, 24768, 87701453, 1950713159, 3667138029, 641206806, 1650688929, 1321161950, 943043659, 62976, 512018339, 2564836760, 1696405152, 1650822305, 1166361814, 1146637495, 2074109465, 1669377698, 182801001, 1652246945, 2094292125, 983040, 4216354106, 3966199272, 3124505570, 6340608, 976735493, 1166362356, 3092880854, 940186150, 31465987, 3888919638, 3873835881, 16124416, 1469443919, 2184054905]) = (1112808245, 1463342561, 562251891, 1746824694, 3640522413)"
  by (simp add: upt_conv_Cons sha1_round_def sha1_init_def RotateLeft32_def)


lemma block_abc:
  "sha1_block sha1_init (sha1_pad (bytes_of_string ''abc'')) =
     (0xA9993E36, 0x4706816A, 0xBA3E2571, 0x7850C26C, 0x9CD0D89D)"
proof -
  have "sha1_block sha1_init (sha1_pad (bytes_of_string ''abc'')) =
      (case sha1_init of (h0, h1, h2, h3, h4) \<Rightarrow>
         case foldl sha1_round sha1_init (zip [0..<80]
            (rev (sha1_schedule 64 (rev [0x61626380, 0,0,0,0,0,0,0,0,0,0,0,0,0,0, 0x18])))) of
           (a, b, c, d, e) \<Rightarrow> (h0 + a, h1 + b, h2 + c, h3 + d, h4 + e))"
    by (simp only: sha1_block_def words_abc Let_def)
  also have "\<dots> = (0xA9993E36, 0x4706816A, 0xBA3E2571, 0x7850C26C, 0x9CD0D89D)"
    by (simp only: sched_abc rounds_abc) (simp add: sha1_init_def)
  finally show ?thesis .
qed

lemma sha1_abc:
  "hex_EncodeToString (sha1_Sum (bytes_of_string ''abc'')) =
     ''a9993e364706816aba3e25717850c26c9cd0d89d''"
proof -
  have len: "length (sha1_pad (bytes_of_string ''abc'')) div 64 = 1"
    by (simp add: pad_abc)
  have one: "chunks 64 1 (sha1_pad (bytes_of_string ''abc'')) = [sha1_pad (bytes_of_string ''abc'')]"
    by (simp add: pad_abc)
  have "sha1_Sum (bytes_of_string ''abc'') =
      put_be32 0xA9993E36 @ put_be32 0x4706816A @ put_be32 0xBA3E2571 @ put_be32 0x7850C26C
        @ put_be32 0x9CD0D89D"
    by (simp only: sha1_Sum_def Let_def len one foldl_Cons foldl_Nil block_abc prod.case)
  then show ?thesis
    by (simp add: put_be32_def hex_EncodeToString_def hextable_def)
qed

text \<open>
  A test vector for HMAC-SHA1: the key \<^verbatim>\<open>key\<close> and the message
  \<^verbatim>\<open>The quick brown fox jumps over the lazy dog\<close>, two blocks for the inner digest
  and two for the outer one, each computed from the definitions.
\<close>

lemma replicate_numeral: "replicate (numeral n) x = x # replicate (pred_numeral n) x"
  by (simp add: numeral_eq_Suc)

lemma words_inner1:
  "map be32 (chunks 4 16
     [93, 83, 79, 54, 54, 54, 54, 54, 54, 54, 54, 54, 54, 54, 54, 54, 54, 54, 54, 54, 54,
     54, 54, 54, 54, 54, 54, 54, 54, 54, 54, 54, 54, 54, 54, 54, 54, 54, 54, 54, 54, 54,
     54, 54, 54, 54, 54, 54, 54, 54, 54, 54, 54, 54, 54, 54, 54, 54, 54, 54, 54, 54, 54,
     54]) =
     [1565740854, 909522486, 909522486, 909522486, 909522486, 909522486, 909522486,
     909522486, 909522486, 909522486, 909522486, 909522486, 909522486, 909522486,
     909522486, 909522486]"
  by (simp add: chunks_numeral be32_def)

lemma sched_inner1:
  "rev (sha1_schedule 64 (rev
     [1565740854, 909522486, 909522486, 909522486, 909522486, 909522486, 909522486,
     909522486, 909522486, 909522486, 909522486, 909522486, 909522486, 909522486,
     909522486, 909522486])) =
     [1565740854, 909522486, 909522486, 909522486, 909522486, 909522486, 909522486,
     909522486, 909522486, 909522486, 909522486, 909522486, 909522486, 909522486,
     909522486, 909522486, 3603624448, 0, 0, 3254356077, 1819044972, 1819044972,
     4020206775, 3031741620, 1967996121, 3745446255, 1768515945, 1768515945, 1722100231,
     168430090, 3423970256, 3360641291, 1394313639, 2779096485, 2593433629, 802032031,
     2179415794, 2425157022, 4061385794, 1145324612, 3211154195, 3284386755, 2721668719,
     3885396959, 3509119437, 3789677025, 353835989, 4044141135, 772875921, 3112101976,
     2425157022, 3985330846, 927323722, 1263225675, 1809030197, 2208155396, 4027236684,
     3992029411, 3221293680, 938214360, 1024940386, 927868203, 3463660882, 3992029411,
     4088557264, 4008636142, 343097999, 3309103546, 517995495, 3621246935, 556655395,
     981760455, 685565046, 733810156, 2814562485, 3666105983, 2349716599, 1431655765,
     2362523069, 1798150011]"
  by (simp add: sha1_schedule_numeral RotateLeft32_def)

lemma rounds_inner1:
  "foldl sha1_round (1732584193, 4023233417, 2562383102, 271733878, 3285377520) (zip [0..<80]
     [1565740854, 909522486, 909522486, 909522486, 909522486, 909522486, 909522486,
     909522486, 909522486, 909522486, 909522486, 909522486, 909522486, 909522486,
     909522486, 909522486, 3603624448, 0, 0, 3254356077, 1819044972, 1819044972,
     4020206775, 3031741620, 1967996121, 3745446255, 1768515945, 1768515945, 1722100231,
     168430090, 3423970256, 3360641291, 1394313639, 2779096485, 2593433629, 802032031,
     2179415794, 2425157022, 4061385794, 1145324612, 3211154195, 3284386755, 2721668719,
     3885396959, 3509119437, 3789677025, 353835989, 4044141135, 772875921, 3112101976,
     2425157022, 3985330846, 927323722, 1263225675, 1809030197, 2208155396, 4027236684,
     3992029411, 3221293680, 938214360, 1024940386, 927868203, 3463660882, 3992029411,
     4088557264, 4008636142, 343097999, 3309103546, 517995495, 3621246935, 556655395,
     981760455, 685565046, 733810156, 2814562485, 3666105983, 2349716599, 1431655765,
     2362523069, 1798150011]) =
     (4033843279, 1915082018, 2871820632, 820031788, 2495123402)"
  by (simp add: upt_conv_Cons sha1_round_def RotateLeft32_def)

lemma block_inner1:
  "sha1_block (1732584193, 4023233417, 2562383102, 271733878, 3285377520)
     [93, 83, 79, 54, 54, 54, 54, 54, 54, 54, 54, 54, 54, 54, 54, 54, 54, 54, 54, 54, 54,
     54, 54, 54, 54, 54, 54, 54, 54, 54, 54, 54, 54, 54, 54, 54, 54, 54, 54, 54, 54, 54,
     54, 54, 54, 54, 54, 54, 54, 54, 54, 54, 54, 54, 54, 54, 54, 54, 54, 54, 54, 54, 54,
     54] =
     (1471460176, 1643348139, 1139236438, 1091765666, 1485533626)"
  by (simp only: sha1_block_def Let_def words_inner1 sched_inner1 rounds_inner1 prod.case) simp

lemma words_inner2:
  "map be32 (chunks 4 16
     [84, 104, 101, 32, 113, 117, 105, 99, 107, 32, 98, 114, 111, 119, 110, 32, 102, 111,
     120, 32, 106, 117, 109, 112, 115, 32, 111, 118, 101, 114, 32, 116, 104, 101, 32, 108,
     97, 122, 121, 32, 100, 111, 103, 128, 0, 0, 0, 0, 0, 0, 0, 0, 0, 0, 0, 0, 0, 0, 0, 0,
     0, 0, 3, 88]) =
     [1416127776, 1903520099, 1797284466, 1870097952, 1718581280, 1786080624, 1931505526,
     1701978228, 1751457900, 1635416352, 1685022592, 0, 0, 0, 0, 856]"
  by (simp add: chunks_numeral be32_def)

lemma sched_inner2:
  "rev (sha1_schedule 64 (rev
     [1416127776, 1903520099, 1797284466, 1870097952, 1718581280, 1786080624, 1931505526,
     1701978228, 1751457900, 1635416352, 1685022592, 0, 0, 0, 0, 856])) =
     [1416127776, 1903520099, 1797284466, 1870097952, 1718581280, 1786080624, 1931505526,
     1701978228, 1751457900, 1635416352, 1685022592, 0, 0, 0, 0, 856, 2925153916,
     4277206214, 3527474452, 1454414425, 3615479585, 3129958433, 2615913094, 2800687707,
     834589538, 146955968, 562102686, 3457978998, 3212514243, 907855311, 4149931289,
     3469339661, 4151397258, 2947656332, 3572469581, 2862892809, 3099429328, 4247151089,
     4015499241, 2964472461, 886173966, 208765863, 4115644219, 3438003068, 4191938907,
     3782864401, 1194296332, 1344527022, 3966613425, 2627195996, 2457650705, 3993543786,
     1699489404, 2099386104, 3846368514, 324566001, 2711871224, 1923019531, 459396865,
     3295850494, 1380806721, 2922637965, 350544515, 457312901, 3808594858, 701154172,
     3995499475, 1756704141, 4145213575, 1558182062, 1902246376, 455927281, 171898362,
     3700346051, 2018276037, 294992392, 3664469260, 600102087, 774198675, 3885949449]"
  by (simp add: sha1_schedule_numeral RotateLeft32_def)

lemma rounds_inner2:
  "foldl sha1_round (1471460176, 1643348139, 1139236438, 1091765666, 1485533626) (zip [0..<80]
     [1416127776, 1903520099, 1797284466, 1870097952, 1718581280, 1786080624, 1931505526,
     1701978228, 1751457900, 1635416352, 1685022592, 0, 0, 0, 0, 856, 2925153916,
     4277206214, 3527474452, 1454414425, 3615479585, 3129958433, 2615913094, 2800687707,
     834589538, 146955968, 562102686, 3457978998, 3212514243, 907855311, 4149931289,
     3469339661, 4151397258, 2947656332, 3572469581, 2862892809, 3099429328, 4247151089,
     4015499241, 2964472461, 886173966, 208765863, 4115644219, 3438003068, 4191938907,
     3782864401, 1194296332, 1344527022, 3966613425, 2627195996, 2457650705, 3993543786,
     1699489404, 2099386104, 3846368514, 324566001, 2711871224, 1923019531, 459396865,
     3295850494, 1380806721, 2922637965, 350544515, 457312901, 3808594858, 701154172,
     3995499475, 1756704141, 4145213575, 1558182062, 1902246376, 455927281, 171898362,
     3700346051, 2018276037, 294992392, 3664469260, 600102087, 774198675, 3885949449]) =
     (3075039913, 3022468733, 1585954669, 4057948407, 3142639300)"
  by (simp add: upt_conv_Cons sha1_round_def RotateLeft32_def)

lemma block_inner2:
  "sha1_block (1471460176, 1643348139, 1139236438, 1091765666, 1485533626)
     [84, 104, 101, 32, 113, 117, 105, 99, 107, 32, 98, 114, 111, 119, 110, 32, 102, 111,
     120, 32, 106, 117, 109, 112, 115, 32, 111, 118, 101, 114, 32, 116, 104, 101, 32, 108,
     97, 122, 121, 32, 100, 111, 103, 128, 0, 0, 0, 0, 0, 0, 0, 0, 0, 0, 0, 0, 0, 0, 0, 0,
     0, 0, 3, 88] =
     (251532793, 370849576, 2725191107, 854746777, 333205630)"
  by (simp only: sha1_block_def Let_def words_inner2 sched_inner2 rounds_inner2 prod.case) simp

lemma pad_inner:
  "sha1_pad
     [93, 83, 79, 54, 54, 54, 54, 54, 54, 54, 54, 54, 54, 54, 54, 54, 54, 54, 54, 54, 54,
     54, 54, 54, 54, 54, 54, 54, 54, 54, 54, 54, 54, 54, 54, 54, 54, 54, 54, 54, 54, 54,
     54, 54, 54, 54, 54, 54, 54, 54, 54, 54, 54, 54, 54, 54, 54, 54, 54, 54, 54, 54, 54,
     54, 84, 104, 101, 32, 113, 117, 105, 99, 107, 32, 98, 114, 111, 119, 110, 32, 102,
     111, 120, 32, 106, 117, 109, 112, 115, 32, 111, 118, 101, 114, 32, 116, 104, 101, 32,
     108, 97, 122, 121, 32, 100, 111, 103] =
     [93, 83, 79, 54, 54, 54, 54, 54, 54, 54, 54, 54, 54, 54, 54, 54, 54, 54, 54, 54, 54,
     54, 54, 54, 54, 54, 54, 54, 54, 54, 54, 54, 54, 54, 54, 54, 54, 54, 54, 54, 54, 54,
     54, 54, 54, 54, 54, 54, 54, 54, 54, 54, 54, 54, 54, 54, 54, 54, 54, 54, 54, 54, 54,
     54]
     @
     [84, 104, 101, 32, 113, 117, 105, 99, 107, 32, 98, 114, 111, 119, 110, 32, 102, 111,
     120, 32, 106, 117, 109, 112, 115, 32, 111, 118, 101, 114, 32, 116, 104, 101, 32, 108,
     97, 122, 121, 32, 100, 111, 103, 128, 0, 0, 0, 0, 0, 0, 0, 0, 0, 0, 0, 0, 0, 0, 0, 0,
     0, 0, 3, 88]"
  by (simp add: sha1_pad_def put_be64_def upt_conv_Cons replicate_numeral)

lemma sum_inner:
  "sha1_Sum
     [93, 83, 79, 54, 54, 54, 54, 54, 54, 54, 54, 54, 54, 54, 54, 54, 54, 54, 54, 54, 54,
     54, 54, 54, 54, 54, 54, 54, 54, 54, 54, 54, 54, 54, 54, 54, 54, 54, 54, 54, 54, 54,
     54, 54, 54, 54, 54, 54, 54, 54, 54, 54, 54, 54, 54, 54, 54, 54, 54, 54, 54, 54, 54,
     54, 84, 104, 101, 32, 113, 117, 105, 99, 107, 32, 98, 114, 111, 119, 110, 32, 102,
     111, 120, 32, 106, 117, 109, 112, 115, 32, 111, 118, 101, 114, 32, 116, 104, 101, 32,
     108, 97, 122, 121, 32, 100, 111, 103] =
     [14, 254, 21, 249, 22, 26, 183, 40, 162, 111, 29, 195, 50, 242, 102, 153, 19, 220, 80,
     126]"
  by (simp only: sha1_Sum_def Let_def pad_inner)
     (simp add: chunks_numeral sha1_init_def block_inner1 block_inner2 put_be32_def)

lemma words_outer1:
  "map be32 (chunks 4 16
     [55, 57, 37, 92, 92, 92, 92, 92, 92, 92, 92, 92, 92, 92, 92, 92, 92, 92, 92, 92, 92,
     92, 92, 92, 92, 92, 92, 92, 92, 92, 92, 92, 92, 92, 92, 92, 92, 92, 92, 92, 92, 92,
     92, 92, 92, 92, 92, 92, 92, 92, 92, 92, 92, 92, 92, 92, 92, 92, 92, 92, 92, 92, 92,
     92]) =
     [926491996, 1549556828, 1549556828, 1549556828, 1549556828, 1549556828, 1549556828,
     1549556828, 1549556828, 1549556828, 1549556828, 1549556828, 1549556828, 1549556828,
     1549556828, 1549556828]"
  by (simp add: chunks_numeral be32_def)

lemma sched_outer1:
  "rev (sha1_schedule 64 (rev
     [926491996, 1549556828, 1549556828, 1549556828, 1549556828, 1549556828, 1549556828,
     1549556828, 1549556828, 1549556828, 1549556828, 1549556828, 1549556828, 1549556828,
     1549556828, 1549556828])) =
     [926491996, 1549556828, 1549556828, 1549556828, 1549556828, 1549556828, 1549556828,
     1549556828, 1549556828, 1549556828, 1549556828, 1549556828, 1549556828, 1549556828,
     1549556828, 1549556828, 3603624448, 0, 0, 355294393, 3099113656, 3099113656,
     2464285130, 3385444809, 3705967984, 633602965, 2475922323, 2475922323, 989427291,
     1448498774, 399407115, 1591330717, 3102761548, 1313754702, 3957709164, 233581501,
     3185246926, 2575694999, 2823392792, 505290270, 3691327600, 2694881440, 3106030964,
     676969488, 1620662396, 1347440720, 1583108254, 3693191010, 3196171777, 2059217819,
     1719272296, 90421878, 527302242, 1667457891, 1592174848, 4226137980, 1904951501,
     1497709655, 2286502456, 432156150, 4057699758, 3468156114, 1341310163, 1497709655,
     3482211052, 3537031890, 1345783499, 1620659231, 3305381948, 202116108, 836098,
     2109947520, 1954592810, 615645923, 2832064442, 2262305315, 3208570692, 1717986918,
     223394876, 2463395458]"
  by (simp add: sha1_schedule_numeral RotateLeft32_def)

lemma rounds_outer1:
  "foldl sha1_round (1732584193, 4023233417, 2562383102, 271733878, 3285377520) (zip [0..<80]
     [926491996, 1549556828, 1549556828, 1549556828, 1549556828, 1549556828, 1549556828,
     1549556828, 1549556828, 1549556828, 1549556828, 1549556828, 1549556828, 1549556828,
     1549556828, 1549556828, 3603624448, 0, 0, 355294393, 3099113656, 3099113656,
     2464285130, 3385444809, 3705967984, 633602965, 2475922323, 2475922323, 989427291,
     1448498774, 399407115, 1591330717, 3102761548, 1313754702, 3957709164, 233581501,
     3185246926, 2575694999, 2823392792, 505290270, 3691327600, 2694881440, 3106030964,
     676969488, 1620662396, 1347440720, 1583108254, 3693191010, 3196171777, 2059217819,
     1719272296, 90421878, 527302242, 1667457891, 1592174848, 4226137980, 1904951501,
     1497709655, 2286502456, 432156150, 4057699758, 3468156114, 1341310163, 1497709655,
     3482211052, 3537031890, 1345783499, 1620659231, 3305381948, 202116108, 836098,
     2109947520, 1954592810, 615645923, 2832064442, 2262305315, 3208570692, 1717986918,
     223394876, 2463395458]) =
     (1771518352, 3204842981, 435463286, 2334901033, 3969768584)"
  by (simp add: upt_conv_Cons sha1_round_def RotateLeft32_def)

lemma block_outer1:
  "sha1_block (1732584193, 4023233417, 2562383102, 271733878, 3285377520)
     [55, 57, 37, 92, 92, 92, 92, 92, 92, 92, 92, 92, 92, 92, 92, 92, 92, 92, 92, 92, 92,
     92, 92, 92, 92, 92, 92, 92, 92, 92, 92, 92, 92, 92, 92, 92, 92, 92, 92, 92, 92, 92,
     92, 92, 92, 92, 92, 92, 92, 92, 92, 92, 92, 92, 92, 92, 92, 92, 92, 92, 92, 92, 92,
     92] =
     (3504102545, 2933109102, 2997846388, 2606634911, 2960178808)"
  by (simp only: sha1_block_def Let_def words_outer1 sched_outer1 rounds_outer1 prod.case) simp

lemma words_outer2:
  "map be32 (chunks 4 16
     [14, 254, 21, 249, 22, 26, 183, 40, 162, 111, 29, 195, 50, 242, 102, 153, 19, 220, 80,
     126, 128, 0, 0, 0, 0, 0, 0, 0, 0, 0, 0, 0, 0, 0, 0, 0, 0, 0, 0, 0, 0, 0, 0, 0, 0, 0,
     0, 0, 0, 0, 0, 0, 0, 0, 0, 0, 0, 0, 0, 0, 0, 0, 2, 160]) =
     [251532793, 370849576, 2725191107, 854746777, 333205630, 2147483648, 0, 0, 0, 0, 0, 0,
     0, 0, 0, 672]"
  by (simp add: chunks_numeral be32_def)

lemma sched_outer2:
  "rev (sha1_schedule 64 (rev
     [251532793, 370849576, 2725191107, 854746777, 333205630, 2147483648, 0, 0, 0, 0, 0, 0,
     0, 0, 0, 672])) =
     [251532793, 370849576, 2725191107, 854746777, 333205630, 2147483648, 0, 0, 0, 0, 0, 0,
     0, 0, 0, 672, 1495404661, 1238475618, 1667669563, 3617648089, 3021727288, 3335339127,
     2940328883, 1748486449, 1071536133, 3441488291, 379760148, 3506269113, 4067831606,
     2698977671, 1295859966, 2803928971, 1250684825, 1020919756, 3456021304, 372681501,
     2884360931, 2276904947, 2536034475, 1404623861, 3364072695, 1817799419, 4112896990,
     1563335593, 4059283360, 3940115522, 2606876875, 1935943716, 1247750185, 3148869059,
     3232310339, 233025245, 3980308566, 4244416527, 2454860949, 1131827961, 369884703,
     823414792, 236074377, 1480547923, 1836133995, 3601310656, 916919368, 3449385707,
     2494866282, 1677594301, 3694765807, 2066347990, 3821488170, 1781137331, 2477675049,
     3094900832, 3439931039, 855025055, 239442650, 1903184308, 365932333, 4272253060,
     2174441854, 128009782]"
  by (simp add: sha1_schedule_numeral RotateLeft32_def)

lemma rounds_outer2:
  "foldl sha1_round (3504102545, 2933109102, 2997846388, 2606634911, 2960178808) (zip [0..<80]
     [251532793, 370849576, 2725191107, 854746777, 333205630, 2147483648, 0, 0, 0, 0, 0, 0,
     0, 0, 0, 672, 1495404661, 1238475618, 1667669563, 3617648089, 3021727288, 3335339127,
     2940328883, 1748486449, 1071536133, 3441488291, 379760148, 3506269113, 4067831606,
     2698977671, 1295859966, 2803928971, 1250684825, 1020919756, 3456021304, 372681501,
     2884360931, 2276904947, 2536034475, 1404623861, 3364072695, 1817799419, 4112896990,
     1563335593, 4059283360, 3940115522, 2606876875, 1935943716, 1247750185, 3148869059,
     3232310339, 233025245, 3980308566, 4244416527, 2454860949, 1131827961, 369884703,
     823414792, 236074377, 1480547923, 1836133995, 3601310656, 916919368, 3449385707,
     2494866282, 1677594301, 3694765807, 2066347990, 3821488170, 1781137331, 2477675049,
     3094900832, 3439931039, 855025055, 239442650, 1903184308, 365932333, 4272253060,
     2174441854, 128009782]) =
     (228605684, 165927224, 165345474, 1538029777, 1814885985)"
  by (simp add: upt_conv_Cons sha1_round_def RotateLeft32_def)

lemma block_outer2:
  "sha1_block (3504102545, 2933109102, 2997846388, 2606634911, 2960178808)
     [14, 254, 21, 249, 22, 26, 183, 40, 162, 111, 29, 195, 50, 242, 102, 153, 19, 220, 80,
     126, 128, 0, 0, 0, 0, 0, 0, 0, 0, 0, 0, 0, 0, 0, 0, 0, 0, 0, 0, 0, 0, 0, 0, 0, 0, 0,
     0, 0, 0, 0, 0, 0, 0, 0, 0, 0, 0, 0, 0, 0, 0, 0, 2, 160] =
     (3732708229, 3099036326, 3163191862, 4144664688, 480097497)"
  by (simp only: sha1_block_def Let_def words_outer2 sched_outer2 rounds_outer2 prod.case) simp

lemma pad_outer:
  "sha1_pad
     [55, 57, 37, 92, 92, 92, 92, 92, 92, 92, 92, 92, 92, 92, 92, 92, 92, 92, 92, 92, 92,
     92, 92, 92, 92, 92, 92, 92, 92, 92, 92, 92, 92, 92, 92, 92, 92, 92, 92, 92, 92, 92,
     92, 92, 92, 92, 92, 92, 92, 92, 92, 92, 92, 92, 92, 92, 92, 92, 92, 92, 92, 92, 92,
     92, 14, 254, 21, 249, 22, 26, 183, 40, 162, 111, 29, 195, 50, 242, 102, 153, 19, 220,
     80, 126] =
     [55, 57, 37, 92, 92, 92, 92, 92, 92, 92, 92, 92, 92, 92, 92, 92, 92, 92, 92, 92, 92,
     92, 92, 92, 92, 92, 92, 92, 92, 92, 92, 92, 92, 92, 92, 92, 92, 92, 92, 92, 92, 92,
     92, 92, 92, 92, 92, 92, 92, 92, 92, 92, 92, 92, 92, 92, 92, 92, 92, 92, 92, 92, 92,
     92]
     @
     [14, 254, 21, 249, 22, 26, 183, 40, 162, 111, 29, 195, 50, 242, 102, 153, 19, 220, 80,
     126, 128, 0, 0, 0, 0, 0, 0, 0, 0, 0, 0, 0, 0, 0, 0, 0, 0, 0, 0, 0, 0, 0, 0, 0, 0, 0,
     0, 0, 0, 0, 0, 0, 0, 0, 0, 0, 0, 0, 0, 0, 0, 0, 2, 160]"
  by (simp add: sha1_pad_def put_be64_def upt_conv_Cons replicate_numeral)

lemma sum_outer:
  "sha1_Sum
     [55, 57, 37, 92, 92, 92, 92, 92, 92, 92, 92, 92, 92, 92, 92, 92, 92, 92, 92, 92, 92,
     92, 92, 92, 92, 92, 92, 92, 92, 92, 92, 92, 92, 92, 92, 92, 92, 92, 92, 92, 92, 92,
     92, 92, 92, 92, 92, 92, 92, 92, 92, 92, 92, 92, 92, 92, 92, 92, 92, 92, 92, 92, 92,
     92, 14, 254, 21, 249, 22, 26, 183, 40, 162, 111, 29, 195, 50, 242, 102, 153, 19, 220,
     80, 126] =
     [222, 124, 155, 133, 184, 183, 138, 166, 188, 138, 122, 54, 247, 10, 144, 112, 28,
     157, 180, 217]"
  by (simp only: sha1_Sum_def Let_def pad_outer)
     (simp add: chunks_numeral sha1_init_def block_outer1 block_outer2 put_be32_def)

lemma hmac_New_key:
  "hmac_New (bytes_of_string ''key'') =
     \<lparr>opad =
        [55, 57, 37, 92, 92, 92, 92, 92, 92, 92, 92, 92, 92, 92, 92, 92, 92, 92, 92, 92,
        92, 92, 92, 92, 92, 92, 92, 92, 92, 92, 92, 92, 92, 92, 92, 92, 92, 92, 92, 92, 92,
        92, 92, 92, 92, 92, 92, 92, 92, 92, 92, 92, 92, 92, 92, 92, 92, 92, 92, 92, 92, 92,
        92, 92],
      ipad =
        [93, 83, 79, 54, 54, 54, 54, 54, 54, 54, 54, 54, 54, 54, 54, 54, 54, 54, 54, 54,
        54, 54, 54, 54, 54, 54, 54, 54, 54, 54, 54, 54, 54, 54, 54, 54, 54, 54, 54, 54, 54,
        54, 54, 54, 54, 54, 54, 54, 54, 54, 54, 54, 54, 54, 54, 54, 54, 54, 54, 54, 54, 54,
        54, 54],
      inner =
        [93, 83, 79, 54, 54, 54, 54, 54, 54, 54, 54, 54, 54, 54, 54, 54, 54, 54, 54, 54,
        54, 54, 54, 54, 54, 54, 54, 54, 54, 54, 54, 54, 54, 54, 54, 54, 54, 54, 54, 54, 54,
        54, 54, 54, 54, 54, 54, 54, 54, 54, 54, 54, 54, 54, 54, 54, 54, 54, 54, 54, 54, 54,
        54, 54]\<rparr>"
  by (simp add: hmac_New_def bytes_of_string_def Let_def replicate_numeral)

lemma fox_bytes:
  "bytes_of_string ''The quick brown fox jumps over the lazy dog'' =
     [84, 104, 101, 32, 113, 117, 105, 99, 107, 32, 98, 114, 111, 119, 110, 32, 102, 111,
     120, 32, 106, 117, 109, 112, 115, 32, 111, 118, 101, 114, 32, 116, 104, 101, 32, 108,
     97, 122, 121, 32, 100, 111, 103]"
  by (simp add: bytes_of_string_def)

lemma HMAC_SHA1_fox:
  "sign (bytes_of_string ''key'')
     (bytes_of_string ''The quick brown fox jumps over the lazy dog'') =
     ''de7c9b85b8b78aa6bc8a7a36f70a90701c9db4d9''"
  by (simp only: sign_def HMAC_SHA1_def hmac_Write_def hmac_Sum_def hmac_New_key fox_bytes
        fst_conv hmac.simps append.simps sum_inner sum_outer)
     (simp add: hex_EncodeToString_def hextable_def)

section \<open>Facts about the goroutines of syncAll\<close>

lemma sum_list_map_update:
  "i < length xs \<Longrightarrow>
   sum_list (map f (xs[i := y])) + f (xs ! i) = sum_list (map f xs) + (f y :: nat)"
proof (induction xs arbitrary: i)
  case Nil
  then show ?case by simp
next
  case (Cons x xs)
  then show ?case by (cases i) auto
qed

lemma caller_step_measure:
  "\<not> panicked s \<Longrightarrow> caller_step s = Some s' \<Longrightarrow> sync_measure s' < sync_measure s"
  by (auto simp: caller_step_def sync_measure_def weight_def
           split: main_pc.splits list.splits if_splits)

lemma closer_step_measure:
  "\<not> panicked s \<Longrightarrow> closer_step s = Some s' \<Longrightarrow> sync_measure s' < sync_measure s"
  by (auto simp: closer_step_def sync_measure_def split: closer_pc.splits if_splits)

lemma worker_step_measure:
  assumes "\<not> panicked s" "worker_step w token i s = Some s'"
  shows "sync_measure s' < sync_measure s"
proof -
  from assms(2) have i: "i < length (workers s)"
    by (auto simp: worker_step_def split: if_splits)
  obtain r pc where rp: "workers s ! i = (r, pc)" by (cases "workers s ! i")
  have upd: "\<And>pc'. sum_list (map (\<lambda>p. weight (snd p)) ((workers s)[i := (r, pc')])) + weight pc
        = sum_list (map (\<lambda>p. weight (snd p)) (workers s)) + weight pc'"
    using sum_list_map_update [OF i, of "\<lambda>p. weight (snd p)"] rp by simp
  show ?thesis
  proof (cases pc)
    case W_fetch
    then show ?thesis using assms i rp upd [of W_exit] upd [of "W_send (fst (pullReadme w r token))"]
      by (auto simp: worker_step_def sync_measure_def weight_def split: prod.splits option.splits)
  next
    case (W_send b)
    then show ?thesis using assms i rp upd [of W_exit]
      by (auto simp: worker_step_def sync_measure_def weight_def split: if_splits)
  next
    case W_exit
    then show ?thesis using assms i rp upd [of W_done]
      by (auto simp: worker_step_def sync_measure_def weight_def split: if_splits)
  next
    case W_done
    then show ?thesis using assms i rp by (simp add: worker_step_def)
  qed
qed

lemma sync_step_measure:
  "sync_step w token g s = Some s' \<Longrightarrow> sync_measure s' < sync_measure s"
  by (cases g)
     (auto simp: sync_step_def caller_step_measure closer_step_measure worker_step_measure
           split: if_splits)

lemma sync_run_measure:
  "sync_run w token sched s = Some s' \<Longrightarrow> length sched + sync_measure s' \<le> sync_measure s"
proof (induction sched arbitrary: s)
  case Nil
  then show ?case by simp
next
  case (Cons g gs)
  then obtain s1 where s1: "sync_step w token g s = Some s1" "sync_run w token gs s1 = Some s'"
    by (auto split: option.splits)
  from Cons.IH [OF s1(2)] sync_step_measure [OF s1(1)] show ?case by simp
qed

lemma sync_inv_init: "sync_inv w token repos (sync_init repos)"
  by (simp add: sync_inv_def sync_init_def to_spawn_def spawning_def stored_def has_left_def)

lemma sync_invD:
  assumes "sync_inv w token repos s"
  shows "\<not> panicked s"
    "wg s = int (sum_list (map (\<lambda>p. live (snd p)) (workers s)))"
    "map fst (workers s) @ to_spawn s = repos"
    "(closer s = C_absent) = spawning s"
    "chan_closed s = (closer s = C_done)"
    "chan_closed s \<longrightarrow> wg s = 0"
    "caller s = M_return \<longrightarrow> chan_closed s"
    "\<forall>j<length (workers s). \<forall>b. snd (workers s ! j) = W_send b \<longrightarrow>
          pullReadme w (fst (workers s ! j)) token = (b, None)"
    "\<And>r'. stored s r' = (if has_left s r' then fetched w token r' else None)"
  using assms unfolding sync_inv_def by blast+

lemma has_left_frame: "workers s' = workers s \<Longrightarrow> has_left s' = has_left s"
  by (rule ext) (simp add: has_left_def)

lemma stored_frame: "caller s' = caller s \<Longrightarrow> results s' = results s \<Longrightarrow> stored s' = stored s"
  by (simp add: stored_def split: main_pc.splits)

lemma has_left_same:
  assumes "i < length (workers s)" "workers s ! i = (r, pc)"
    "workers s' = (workers s)[i := (r, pc')]" "left_pc pc' = left_pc pc"
  shows "has_left s' r' = has_left s r'"
proof -
  have "\<And>j. j < length (workers s) \<Longrightarrow>
      (fst (workers s' ! j) = r' \<and> left_pc (snd (workers s' ! j)))
    = (fst (workers s ! j) = r' \<and> left_pc (snd (workers s ! j)))"
    using assms by (case_tac "j = i") (simp_all add: nth_list_update)
  then show ?thesis using assms(3) by (auto simp: has_left_def)
qed

lemma has_left_new:
  assumes "i < length (workers s)" "workers s ! i = (r, pc)"
    "workers s' = (workers s)[i := (r, pc')]" "left_pc pc'" "\<not> left_pc pc"
  shows "has_left s' r' = (has_left s r' \<or> r' = r)"
proof -
  have other: "\<And>j. j < length (workers s) \<Longrightarrow> j \<noteq> i \<Longrightarrow> workers s' ! j = workers s ! j"
    using assms(3) by simp
  have here: "workers s' ! i = (r, pc')" using assms(1,3) by simp
  have len: "length (workers s') = length (workers s)" using assms(3) by simp
  show ?thesis
  proof
    assume "has_left s' r'"
    then obtain j where j: "j < length (workers s)" "fst (workers s' ! j) = r'"
        "left_pc (snd (workers s' ! j))"
      by (auto simp: has_left_def len)
    show "has_left s r' \<or> r' = r"
    proof (cases "j = i")
      case True
      then show ?thesis using j here by simp
    next
      case False
      then show ?thesis using j other [OF j(1) False] by (auto simp: has_left_def)
    qed
  next
    assume "has_left s r' \<or> r' = r"
    then show "has_left s' r'"
    proof
      assume "has_left s r'"
      then obtain j where j: "j < length (workers s)" "fst (workers s ! j) = r'"
          "left_pc (snd (workers s ! j))"
        by (auto simp: has_left_def)
      then have "j \<noteq> i" using assms(2,5) by auto
      then show ?thesis using j other [OF j(1)] len by (auto simp: has_left_def)
    next
      assume "r' = r"
      then show ?thesis using here assms(1,4) len by (auto simp: has_left_def)
    qed
  qed
qed

lemma names_update:
  assumes "i < length ws" "ws ! i = (r, pc)"
  shows "map fst (ws[i := (r, pc')]) = map fst ws"
proof -
  have "map fst (ws[i := (r, pc')]) = (map fst ws)[i := r]" by (simp add: map_update)
  also have "\<dots> = map fst ws" using assms by (simp add: list_update_same_conv)
  finally show ?thesis .
qed

lemma live_update:
  assumes "i < length ws" "ws ! i = (r, pc)"
  shows "int (sum_list (map (\<lambda>p. live (snd p)) (ws[i := (r, pc')]))) =
         int (sum_list (map (\<lambda>p. live (snd p)) ws)) + int (live pc') - int (live pc)"
  using sum_list_map_update [OF assms(1), of "\<lambda>p. live (snd p)" "(r, pc')"] assms(2) by simp

lemma sends_update:
  assumes "i < length ws" "ws ! i = (r, pc)"
    "\<forall>j<length ws. \<forall>b. snd (ws ! j) = W_send b \<longrightarrow> pullReadme w (fst (ws ! j)) token = (b, None)"
    "\<And>b. pc' = W_send b \<Longrightarrow> pullReadme w r token = (b, None)"
  shows "\<forall>j<length (ws[i := (r, pc')]). \<forall>b. snd (ws[i := (r, pc')] ! j) = W_send b \<longrightarrow>
            pullReadme w (fst (ws[i := (r, pc')] ! j)) token = (b, None)"
  using assms by (auto simp: nth_list_update)

lemma closer_step_inv:
  assumes "sync_inv w token repos s" "closer_step s = Some s'"
  shows "sync_inv w token repos s'"
proof -
  note I = sync_invD [OF assms(1)]
  from assms(2) have pre: "closer s = C_wait" "wg s = 0"
    and s': "s' = s\<lparr>chan_closed := True, closer := C_done\<rparr>"
    by (auto simp: closer_step_def split: closer_pc.splits if_splits)
  have sel: "panicked s' = panicked s" "wg s' = wg s" "workers s' = workers s"
    "closer s' = C_done" "chan_closed s' = True" "caller s' = caller s" "results s' = results s"
    by (simp_all add: s')
  have fr: "stored s' = stored s" "has_left s' = has_left s" "to_spawn s' = to_spawn s"
    "spawning s' = spawning s"
    using sel by (simp_all add: stored_frame [of s' s] has_left_frame [of s' s] to_spawn_def spawning_def)
  have sp: "\<not> spawning s" using I(4) pre(1) by simp
  show ?thesis
    unfolding sync_inv_def sel fr
    using I(1,2,3,8,9) pre(2) sp by simp
qed

lemma caller_step_inv:
  assumes "sync_inv w token repos s" "caller_step s = Some s'"
  shows "sync_inv w token repos s'"
proof (cases "caller s")
  case (M_spawn rest)
  note I = sync_invD [OF assms(1)]
  have ab: "closer s = C_absent" using I(4) M_spawn by (simp add: spawning_def)
  then have op: "\<not> chan_closed s" using I(5) by simp
  show ?thesis
  proof (cases rest)
    case Nil
    with M_spawn assms(2) have s': "s' = s\<lparr>closer := C_wait, caller := M_drain\<rparr>"
      by (simp add: caller_step_def)
    have sel: "panicked s' = panicked s" "wg s' = wg s" "workers s' = workers s"
      "closer s' = C_wait" "chan_closed s' = chan_closed s" "caller s' = M_drain"
      "results s' = results s"
      by (simp_all add: s')
    have fr: "stored s' = stored s" "has_left s' = has_left s" "to_spawn s' = to_spawn s"
      "spawning s' = False"
      using sel M_spawn Nil by (simp_all add: stored_def has_left_frame [of s' s] to_spawn_def spawning_def)
    show ?thesis
      unfolding sync_inv_def sel fr
      using I(1,2,3,8,9) op by simp
  next
    case (Cons repo rest')
    with M_spawn assms(2) have s': "s' = s\<lparr>wg := wg s + 1, workers := workers s @ [(repo, W_fetch)], caller := M_spawn rest'\<rparr>"
      by (simp add: caller_step_def)
    have sel: "panicked s' = panicked s" "wg s' = wg s + 1" "workers s' = workers s @ [(repo, W_fetch)]"
      "closer s' = closer s" "chan_closed s' = chan_closed s" "caller s' = M_spawn rest'"
      "results s' = results s"
      by (simp_all add: s')
    have hl: "has_left s' = has_left s"
      by (rule ext) (auto simp: has_left_def sel nth_append left_pc_def less_Suc_eq)
    have fr: "stored s' = stored s" "to_spawn s' = rest'" "to_spawn s = repo # rest'"
      "spawning s' = True"
      using sel M_spawn Cons by (simp_all add: stored_def to_spawn_def spawning_def)
    have lv: "wg s' = int (sum_list (map (\<lambda>p. live (snd p)) (workers s')))"
      using I(2) by (simp add: sel live_def)
    have nm: "map fst (workers s') @ to_spawn s' = repos"
      using I(3) by (simp add: sel fr)
    have sd: "\<forall>j<length (workers s'). \<forall>b. snd (workers s' ! j) = W_send b \<longrightarrow>
          pullReadme w (fst (workers s' ! j)) token = (b, None)"
      using I(8) by (auto simp: sel nth_append less_Suc_eq)
    have st: "\<And>r'. stored s' r' = (if has_left s' r' then fetched w token r' else None)"
      using I(9) by (simp add: fr hl)
    show ?thesis
      unfolding sync_inv_def
      using I(1) ab op lv nm sd st by (simp add: sel(1,4,5,6) fr(4))
  qed
next
  case M_drain
  note I = sync_invD [OF assms(1)]
  from M_drain assms(2) have cl: "chan_closed s" and s': "s' = s\<lparr>caller := M_return\<rparr>"
    by (auto simp: caller_step_def split: if_splits)
  have sel: "panicked s' = panicked s" "wg s' = wg s" "workers s' = workers s"
    "closer s' = closer s" "chan_closed s' = chan_closed s" "caller s' = M_return"
    "results s' = results s"
    by (simp_all add: s')
  have fr: "stored s' = stored s" "has_left s' = has_left s" "to_spawn s' = to_spawn s"
    "spawning s' = spawning s"
    using sel M_drain by (simp_all add: stored_def has_left_frame [of s' s] to_spawn_def spawning_def)
  show ?thesis
    unfolding sync_inv_def sel fr
    using I cl by simp
next
  case (M_store r b)
  note I = sync_invD [OF assms(1)]
  from M_store assms(2) have s': "s' = s\<lparr>results := (results s)(r \<mapsto> b), caller := M_drain\<rparr>"
    by (simp add: caller_step_def)
  have sel: "panicked s' = panicked s" "wg s' = wg s" "workers s' = workers s"
    "closer s' = closer s" "chan_closed s' = chan_closed s" "caller s' = M_drain"
    "results s' = (results s)(r \<mapsto> b)"
    by (simp_all add: s')
  have fr: "stored s' = stored s" "has_left s' = has_left s" "to_spawn s' = to_spawn s"
    "spawning s' = spawning s"
    using sel M_store by (simp_all add: stored_def has_left_frame [of s' s] to_spawn_def spawning_def)
  show ?thesis
    unfolding sync_inv_def sel fr
    using I by simp
next
  case M_return
  with assms show ?thesis by (simp add: caller_step_def)
qed

lemma live_le_pending:
  assumes "i < length ws" "ws ! i = (r, pc)"
  shows "live pc \<le> sum_list (map (\<lambda>p. live (snd p)) ws)"
proof -
  have "map (\<lambda>p. live (snd p)) ws ! i \<in> set (map (\<lambda>p. live (snd p)) ws)"
    using assms(1) by (simp only: nth_mem length_map)
  then have "map (\<lambda>p. live (snd p)) ws ! i \<le> sum_list (map (\<lambda>p. live (snd p)) ws)"
    by (simp only: member_le_sum_list)
  then show ?thesis using assms by simp
qed

lemma worker_step_inv:
  assumes "sync_inv w token repos s" "worker_step w token i s = Some s'"
  shows "sync_inv w token repos s'"
proof -
  from assms(2) have i: "i < length (workers s)"
    by (auto simp: worker_step_def split: if_splits)
  obtain r pc where rp: "workers s ! i = (r, pc)" by (cases "workers s ! i")
  note I = sync_invD [OF assms(1)]
  have pend: "int (live pc) \<le> wg s"
    using live_le_pending [OF i rp] I(2) by simp
  show ?thesis
  proof (cases pc)
    case W_fetch
    show ?thesis
    proof (cases "snd (pullReadme w r token)")
      case None
      then obtain resp where pr': "pullReadme w r token = (resp, None)"
        by (cases "pullReadme w r token") auto
      from assms(2) i rp W_fetch pr' have s': "s' = s\<lparr>workers := (workers s)[i := (r, W_send resp)]\<rparr>"
        by (simp add: worker_step_def)
      have sel: "panicked s' = panicked s" "wg s' = wg s"
        "workers s' = (workers s)[i := (r, W_send resp)]"
        "closer s' = closer s" "chan_closed s' = chan_closed s" "caller s' = caller s"
        "results s' = results s"
        by (simp_all add: s')
      have hl: "\<And>r'. has_left s' r' = has_left s r'"
        using has_left_same [OF i rp sel(3)] W_fetch by (simp add: left_pc_def)
      have fr: "stored s' = stored s" "to_spawn s' = to_spawn s" "spawning s' = spawning s"
        using sel by (simp_all add: stored_frame [of s' s] to_spawn_def spawning_def)
      have lv: "int (sum_list (map (\<lambda>p. live (snd p)) (workers s'))) = wg s"
        using live_update [OF i rp, of "W_send resp"] W_fetch I(2) by (simp add: sel live_def)
      have nm: "map fst (workers s') = map fst (workers s)"
        using names_update [OF i rp] by (simp add: sel)
      have sd: "\<forall>j<length (workers s'). \<forall>b. snd (workers s' ! j) = W_send b \<longrightarrow>
            pullReadme w (fst (workers s' ! j)) token = (b, None)"
        unfolding sel(3) by (rule sends_update [OF i rp I(8)]) (simp add: pr')
      show ?thesis
        unfolding sync_inv_def
        using I(1,3,4,5,6,7,9) lv nm sd by (simp add: sel(1,2,4,5,6,7) fr hl)
    next
      case (Some err)
      then obtain resp where pr': "pullReadme w r token = (resp, Some err)"
        by (cases "pullReadme w r token") auto
      from assms(2) i rp W_fetch pr' have s': "s' = s\<lparr>logged := logged s @ [err], workers := (workers s)[i := (r, W_exit)]\<rparr>"
        by (simp add: worker_step_def split: prod.splits)
      have sel: "panicked s' = panicked s" "wg s' = wg s"
        "workers s' = (workers s)[i := (r, W_exit)]"
        "closer s' = closer s" "chan_closed s' = chan_closed s" "caller s' = caller s"
        "results s' = results s"
        by (simp_all add: s')
      have hl: "\<And>r'. has_left s' r' = (has_left s r' \<or> r' = r)"
        using has_left_new [OF i rp sel(3)] W_fetch by (simp add: left_pc_def)
      have fr: "stored s' = stored s" "to_spawn s' = to_spawn s" "spawning s' = spawning s"
        using sel by (simp_all add: stored_frame [of s' s] to_spawn_def spawning_def)
      have lv: "int (sum_list (map (\<lambda>p. live (snd p)) (workers s'))) = wg s"
        using live_update [OF i rp, of "W_exit"] W_fetch I(2) by (simp add: sel live_def)
      have nm: "map fst (workers s') = map fst (workers s)"
        using names_update [OF i rp] by (simp add: sel)
      have sd: "\<forall>j<length (workers s'). \<forall>b. snd (workers s' ! j) = W_send b \<longrightarrow>
            pullReadme w (fst (workers s' ! j)) token = (b, None)"
        unfolding sel(3) by (rule sends_update [OF i rp I(8)]) simp
      have fn: "fetched w token r = None" using pr' by (simp add: fetched_def split: prod.splits)
      have st: "\<And>r'. stored s' r' = (if has_left s' r' then fetched w token r' else None)"
        using I(9) fn by (simp add: fr hl)
      show ?thesis
        unfolding sync_inv_def
        using I(1,3,4,5,6,7) lv nm sd st by (simp add: sel(1,2,4,5,6,7) fr)
    qed
  next
    case (W_send body)
    have open_ch: "\<not> chan_closed s"
      using pend I(6) W_send by (auto simp: live_def)
    with assms(2) i rp W_send have dr: "caller s = M_drain"
      and s': "s' = s\<lparr>caller := M_store r body, workers := (workers s)[i := (r, W_exit)]\<rparr>"
      by (auto simp: worker_step_def split: if_splits)
    have sel: "panicked s' = panicked s" "wg s' = wg s"
      "workers s' = (workers s)[i := (r, W_exit)]"
      "closer s' = closer s" "chan_closed s' = chan_closed s" "caller s' = M_store r body"
      "results s' = results s"
      by (simp_all add: s')
    have hl: "\<And>r'. has_left s' r' = (has_left s r' \<or> r' = r)"
      using has_left_new [OF i rp sel(3)] W_send by (simp add: left_pc_def)
    have fr: "stored s' = (stored s)(r \<mapsto> body)" "to_spawn s' = to_spawn s" "spawning s' = spawning s"
      using sel dr by (simp_all add: stored_def to_spawn_def spawning_def)
    have lv: "int (sum_list (map (\<lambda>p. live (snd p)) (workers s'))) = wg s"
      using live_update [OF i rp, of "W_exit"] W_send I(2) by (simp add: sel live_def)
    have nm: "map fst (workers s') = map fst (workers s)"
      using names_update [OF i rp] by (simp add: sel)
    have sd: "\<forall>j<length (workers s'). \<forall>b. snd (workers s' ! j) = W_send b \<longrightarrow>
          pullReadme w (fst (workers s' ! j)) token = (b, None)"
      unfolding sel(3) by (rule sends_update [OF i rp I(8)]) simp
    have "pullReadme w r token = (body, None)"
      using I(8) [rule_format, OF i, of body] rp W_send by simp
    then have fn: "fetched w token r = Some body" by (simp add: fetched_def)
    have st: "\<And>r'. stored s' r' = (if has_left s' r' then fetched w token r' else None)"
      using I(9) fn by (simp add: fr hl)
    show ?thesis
      unfolding sync_inv_def
      using I(1,3,4,5,6,7) lv nm sd st open_ch by (simp add: sel(1,2,4,5,6,7) fr(2,3))
  next
    case W_exit
    have pos: "1 \<le> wg s" using pend W_exit by (simp add: live_def)
    then have open_ch: "\<not> chan_closed s" using I(6) by auto
    from assms(2) i rp W_exit pos
    have s': "s' = s\<lparr>wg := wg s - 1, workers := (workers s)[i := (r, W_done)]\<rparr>"
      by (auto simp: worker_step_def split: if_splits)
    have sel: "panicked s' = panicked s" "wg s' = wg s - 1"
      "workers s' = (workers s)[i := (r, W_done)]"
      "closer s' = closer s" "chan_closed s' = chan_closed s" "caller s' = caller s"
      "results s' = results s"
      by (simp_all add: s')
    have hl: "\<And>r'. has_left s' r' = has_left s r'"
      using has_left_same [OF i rp sel(3)] W_exit by (simp add: left_pc_def)
    have fr: "stored s' = stored s" "to_spawn s' = to_spawn s" "spawning s' = spawning s"
      using sel by (simp_all add: stored_frame [of s' s] to_spawn_def spawning_def)
    have lv: "int (sum_list (map (\<lambda>p. live (snd p)) (workers s'))) = wg s - 1"
      using live_update [OF i rp, of "W_done"] W_exit I(2) by (simp add: sel live_def)
    have nm: "map fst (workers s') = map fst (workers s)"
      using names_update [OF i rp] by (simp add: sel)
    have sd: "\<forall>j<length (workers s'). \<forall>b. snd (workers s' ! j) = W_send b \<longrightarrow>
          pullReadme w (fst (workers s' ! j)) token = (b, None)"
      unfolding sel(3) by (rule sends_update [OF i rp I(8)]) simp
    show ?thesis
      unfolding sync_inv_def
      using I(1,3,4,5,6,7,9) lv nm sd open_ch by (simp add: sel(1,2,4,5,6,7) fr hl)
  next
    case W_done
    with assms(2) i rp show ?thesis by (simp add: worker_step_def)
  qed
qed

lemma sync_step_inv:
  "sync_inv w token repos s \<Longrightarrow> sync_step w token g s = Some s' \<Longrightarrow> sync_inv w token repos s'"
  by (cases g)
     (auto simp: sync_step_def split: if_splits
           intro: caller_step_inv closer_step_inv worker_step_inv)

lemma sync_run_inv:
  "sync_inv w token repos s \<Longrightarrow> sync_run w token sched s = Some s' \<Longrightarrow> sync_inv w token repos s'"
proof (induction sched arbitrary: s)
  case Nil
  then show ?case by simp
next
  case (Cons g gs)
  then obtain s1 where s1: "sync_step w token g s = Some s1" "sync_run w token gs s1 = Some s'"
    by (auto split: option.splits)
  from Cons.IH [OF sync_step_inv [OF Cons.prems(1) s1(1)] s1(2)] show ?case .
qed

lemma pending_worker:
  assumes "sum_list (map (\<lambda>p. live (snd p)) ws) \<noteq> 0"
  shows "\<exists>i<length ws. snd (ws ! i) \<noteq> W_done"
proof (rule ccontr)
  assume "\<not> (\<exists>i<length ws. snd (ws ! i) \<noteq> W_done)"
  then have H: "\<forall>i<length ws. snd (ws ! i) = W_done" by blast
  have "\<forall>p\<in>set ws. snd p = W_done"
  proof
    fix p assume "p \<in> set ws"
    then obtain i where "i < length ws" "ws ! i = p" by (auto simp: in_set_conv_nth)
    with H show "snd p = W_done" by blast
  qed
  then have "\<forall>p\<in>set ws. live (snd p) = 0" by (simp add: live_def)
  then have "sum_list (map (\<lambda>p. live (snd p)) ws) = 0" by simp
  with assms show False by simp
qed

lemma all_done:
  assumes "sum_list (map (\<lambda>p. live (snd p)) ws) = 0" "i < length ws"
  shows "snd (ws ! i) = W_done"
proof -
  from assms(1) have "\<forall>p\<in>set ws. live (snd p) = 0" by simp
  then have "live (snd (ws ! i)) = 0" using assms(2) by simp
  then show ?thesis by (cases "snd (ws ! i)") (simp_all add: live_def)
qed

lemma sync_stuckD:
  assumes "sync_stuck w token s"
  shows "sync_step w token G_main s = None" "sync_step w token G_closer s = None"
    "\<And>i. i < length (workers s) \<Longrightarrow> sync_step w token (G_worker i) s = None"
  using assms by (simp_all add: sync_stuck_def list_all_iff)

lemma sync_progress:
  assumes "sync_inv w token repos s" "sync_stuck w token s"
  shows "caller s = M_return"
proof (rule ccontr)
  assume nr: "caller s \<noteq> M_return"
  note I = sync_invD [OF assms(1)]
  note S = sync_stuckD [OF assms(2)]
  from S(1) I(1) have cs: "caller_step s = None" by (simp add: sync_step_def)
  from S(2) I(1) have cl: "closer_step s = None" by (simp add: sync_step_def)
  from cs nr have dr: "caller s = M_drain" and op: "\<not> chan_closed s"
    by (auto simp: caller_step_def split: main_pc.splits list.splits if_splits)
  from dr I(4) have "closer s \<noteq> C_absent" by (simp add: spawning_def)
  moreover from op I(5) have "closer s \<noteq> C_done" by simp
  ultimately have cw: "closer s = C_wait" by (cases "closer s") simp_all
  with cl have "wg s \<noteq> 0" by (auto simp: closer_step_def split: if_splits)
  have "sum_list (map (\<lambda>p. live (snd p)) (workers s)) \<noteq> 0"
  proof
    assume "sum_list (map (\<lambda>p. live (snd p)) (workers s)) = 0"
    then have "wg s = 0" by (simp only: I(2) of_nat_0)
    with \<open>wg s \<noteq> 0\<close> show False by simp
  qed
  from pending_worker [OF this] obtain i where i: "i < length (workers s)"
    "snd (workers s ! i) \<noteq> W_done" by blast
  obtain r pc where rp: "workers s ! i = (r, pc)" by (cases "workers s ! i")
  have "live pc = 1" using i(2) rp by (cases pc) (simp_all add: live_def)
  then have pos: "1 \<le> wg s" using live_le_pending [OF i(1) rp] I(2) by simp
  from S(3) [OF i(1)] I(1) have "worker_step w token i s = None" by (simp add: sync_step_def)
  then show False using i rp dr op pos
    by (cases pc) (auto simp: worker_step_def split: prod.splits option.splits if_splits)
qed

lemma syncAll_foldl:
  "foldl (\<lambda>m r. case pullReadme w r token of
                     (resp, Some err) \<Rightarrow> m
                   | (resp, None) \<Rightarrow> m(r \<mapsto> resp)) m0 repos r
   = (if r \<in> set repos \<and> fetched w token r \<noteq> None then fetched w token r else m0 r)"
proof (induction repos arbitrary: m0)
  case Nil
  then show ?case by simp
next
  case (Cons x xs)
  show ?case
    by (simp only: foldl_Cons Cons.IH)
       (auto simp: fetched_def split: prod.splits option.splits)
qed

lemma syncAll_apply:
  "syncAll w repos token r = (if r \<in> set repos then fetched w token r else None)"
  by (simp add: syncAll_def syncAll_foldl)

lemma sync_final_results:
  assumes "sync_inv w token repos s" "caller s = M_return"
  shows "results s = syncAll w repos token"
proof (rule ext)
  fix r
  note I = sync_invD [OF assms(1)]
  from I(7) assms(2) have "chan_closed s" by simp
  with I(6) have "wg s = 0" by simp
  with I(2) have z: "sum_list (map (\<lambda>p. live (snd p)) (workers s)) = 0" by simp
  have nm: "map fst (workers s) = repos" using I(3) assms(2) by (simp add: to_spawn_def)
  have "has_left s r = (r \<in> set repos)"
  proof
    assume "has_left s r"
    then obtain i where "i < length (workers s)" "fst (workers s ! i) = r"
      by (auto simp: has_left_def)
    then have "r \<in> set (map fst (workers s))" by (metis nth_map nth_mem length_map)
    then show "r \<in> set repos" by (simp only: nm)
  next
    assume "r \<in> set repos"
    then have "r \<in> set (map fst (workers s))" by (simp only: nm)
    then obtain i where i: "i < length (workers s)" "fst (workers s ! i) = r"
      by (auto simp: in_set_conv_nth)
    with all_done [OF z i(1)] show "has_left s r" by (auto simp: has_left_def left_pc_def)
  qed
  moreover have "stored s r = results s r" using assms(2) by (simp add: stored_def)
  ultimately show "results s r = syncAll w repos token r"
    using I(9) [of r] by (simp add: syncAll_apply)
qed

lemma sync_completes:
  "sync_inv w token repos s \<Longrightarrow>
   \<exists>sched s'. sync_run w token sched s = Some s' \<and> caller s' = M_return"
proof (induction "sync_measure s" arbitrary: s rule: less_induct)
  case less
  show ?case
  proof (cases "caller s = M_return")
    case True
    then have "sync_run w token [] s = Some s \<and> caller s = M_return" by simp
    then show ?thesis by blast
  next
    case False
    with sync_progress [OF less.prems] have "\<not> sync_stuck w token s" by blast
    then obtain g s1 where st: "sync_step w token g s = Some s1"
      by (auto simp: sync_stuck_def list_all_iff)
    from less.hyps [OF sync_step_measure [OF st] sync_step_inv [OF less.prems st]]
    obtain sched s' where "sync_run w token sched s1 = Some s'" "caller s' = M_return"
      by blast
    with st have "sync_run w token (g # sched) s = Some s' \<and> caller s' = M_return" by simp
    then show ?thesis by blast
  qed
qed

lemma fetched_eq_None_iff:
  "(fetched w token r = None) = (snd (pullReadme w r token) \<noteq> None)"
proof (cases "pullReadme w r token")
  case (Pair resp err)
  then show ?thesis by (cases err) (simp_all add: fetched_def)
qed

lemma dom_syncAll:
  "dom (syncAll w repos token) = {r \<in> set repos. snd (pullReadme w r token) = None}"
proof -
  have "\<And>r. (syncAll w repos token r \<noteq> None) = (r \<in> set repos \<and> snd (pullReadme w r token) = None)"
  proof -
    fix r
    obtain resp err where pr: "pullReadme w r token = (resp, err)"
      by (cases "pullReadme w r token")
    show "(syncAll w repos token r \<noteq> None) = (r \<in> set repos \<and> snd (pullReadme w r token) = None)"
      by (cases err) (simp_all add: syncAll_apply fetched_def pr)
  qed
  then show ?thesis unfolding dom_def by blast
qed

lemma card_dom_syncAll:
  assumes "distinct repos"
  shows "card (dom (syncAll w repos token)) =
         length repos - length (filter (\<lambda>r. snd (pullReadme w r token) \<noteq> None) repos)"
proof -
  have "dom (syncAll w repos token) = set (filter (\<lambda>r. snd (pullReadme w r token) = None) repos)"
    by (simp only: dom_syncAll set_filter)
  moreover have "distinct (filter (\<lambda>r. snd (pullReadme w r token) = None) repos)"
    using assms by (rule distinct_filter)
  ultimately have "card (dom (syncAll w repos token)) =
      length (filter (\<lambda>r. snd (pullReadme w r token) = None) repos)"
    by (simp only: distinct_card)
  moreover have "length (filter (\<lambda>r. snd (pullReadme w r token) = None) repos)
      + length (filter (\<lambda>r. \<not> snd (pullReadme w r token) = None) repos) = length repos"
    by (rule sum_length_filter_compl)
  ultimately show ?thesis by simp
qed

lemma sync_returned_stuck:
  assumes "sync_inv w token repos s" "caller s = M_return"
  shows "sync_stuck w token s"
proof -
  note I = sync_invD [OF assms(1)]
  from I(7) assms(2) have cl: "chan_closed s" by simp
  with I(5) have cd: "closer s = C_done" by simp
  from cl I(6) I(2) have z: "sum_list (map (\<lambda>p. live (snd p)) (workers s)) = 0" by simp
  have "\<And>i. i < length (workers s) \<Longrightarrow> worker_step w token i s = None"
  proof -
    fix i assume i: "i < length (workers s)"
    obtain r pc where rp: "workers s ! i = (r, pc)" by (cases "workers s ! i")
    from all_done [OF z i] rp have "pc = W_done" by simp
    then show "worker_step w token i s = None" using i rp by (simp add: worker_step_def)
  qed
  then show ?thesis using assms(2) cd
    by (simp add: sync_stuck_def sync_step_def caller_step_def closer_step_def list_all_iff)
qed

section \<open>Facts about the handler\<close>

lemma verifies_iff:
  "fst (verifyWebhook (bytes_of_string mac) body secret) = (mac = sign secret body)"
  by (simp add: verifyWebhook_eq bytes_of_string_eq_iff)

lemma signature_verifies_iff:
  "signature_verifies e r =
     (\<exists>body. Body r = Inr body \<and>
        drop 5 (Header_Get r ''X-Hub-Signature'') = sign (hookSecret e) body)"
  by (cases "Body r") (simp_all add: signature_verifies_def verifies_iff)

lemma signature_verifies_length:
  assumes "signature_verifies e r"
  shows "length (Header_Get r ''X-Hub-Signature'') = 45"
proof -
  from assms obtain body where
    "drop 5 (Header_Get r ''X-Hub-Signature'') = sign (hookSecret e) body"
    by (auto simp: signature_verifies_iff)
  then have "length (drop 5 (Header_Get r ''X-Hub-Signature'')) = 40"
    by (simp only: length_sign)
  then show ?thesis by simp
qed

lemma ServeHTTP_authenticated:
  assumes "Method r = ''POST''" "Body r = Inr body" "signature_verifies e r"
    "Header_Get r ''X-Github-Event'' = ''push'' \<or> Header_Get r ''X-Github-Event'' = ''ping''"
  shows "ServeHTTP w e r =
         ServeHTTP_verified w e (Header_Get r ''X-Github-Event'') body (True, None)"
proof -
  have len: "\<not> 5 > length (Header_Get r ''X-Hub-Signature'')"
    using signature_verifies_length [OF assms(3)] by simp
  have v: "verifyWebhook (bytes_of_string (drop 5 (Header_Get r ''X-Hub-Signature''))) body
             (hookSecret e) = (True, None)"
    using assms(2,3) by (simp add: signature_verifies_def verifyWebhook_eq)
  show ?thesis
    using assms(1,2,4) len v by (auto simp: ServeHTTP_def Let_def slice_from_def)
qed

lemma ServeHTTP_not_push_ping:
  assumes "Method r = ''POST''"
    "Header_Get r ''X-Github-Event'' \<noteq> ''push''" "Header_Get r ''X-Github-Event'' \<noteq> ''ping''"
  shows "ServeHTTP w e r = respond 400 []"
  using assms by (simp add: ServeHTTP_def Let_def)

section \<open>The claims\<close>

lemma flip_first_bit_neq: "m \<noteq> [] \<Longrightarrow> flip_first_bit m \<noteq> m"
proof (cases m)
  case Nil
  then show "m \<noteq> [] \<Longrightarrow> flip_first_bit m \<noteq> m" by simp
next
  case (Cons x xs)
  have "x XOR 1 \<noteq> x"
  proof
    assume "x XOR 1 = x"
    then have "x XOR (x XOR 1) = x XOR x" by simp
    then have "(1::byte) = 0" by (simp add: xor.assoc [symmetric])
    then show False by simp
  qed
  then show "flip_first_bit m \<noteq> m" using Cons by (simp add: flip_first_bit_def)
qed

text \<open>
  C4. For all payload bytes \<open>b\<close> and every secret \<open>s\<close>, the verifier answers true
  (with no error) for the hex encoding of HMAC-SHA1 of \<open>b\<close> under \<open>s\<close>, and it
  answers false (with no error) for every candidate signature that differs from
  it, in one bit or in more.
\<close>

theorem verify_roundtrip:
  "fst (verifyWebhook (bytes_of_string (hex_EncodeToString (HMAC_SHA1 s b))) b s) \<and>
   snd (verifyWebhook (bytes_of_string (hex_EncodeToString (HMAC_SHA1 s b))) b s) = None \<and>
   (\<forall>mac. mac \<noteq> bytes_of_string (hex_EncodeToString (HMAC_SHA1 s b)) \<longrightarrow>
      verifyWebhook mac b s = (False, None))"
  by (simp add: verifyWebhook_eq sign_def)

theorem verify_roundtrip_witness:
  "fst (verifyWebhook (bytes_of_string (hex_EncodeToString
          (HMAC_SHA1 (bytes_of_string ''s3cret'') (bytes_of_string ''payload''))))
        (bytes_of_string ''payload'') (bytes_of_string ''s3cret'')) \<and>
   flip_first_bit (bytes_of_string (hex_EncodeToString
          (HMAC_SHA1 (bytes_of_string ''s3cret'') (bytes_of_string ''payload''))))
     \<noteq> bytes_of_string (hex_EncodeToString
          (HMAC_SHA1 (bytes_of_string ''s3cret'') (bytes_of_string ''payload''))) \<and>
   verifyWebhook (flip_first_bit (bytes_of_string (hex_EncodeToString
          (HMAC_SHA1 (bytes_of_string ''s3cret'') (bytes_of_string ''payload'')))))
        (bytes_of_string ''payload'') (bytes_of_string ''s3cret'') = (False, None)"
proof -
  let ?s = "bytes_of_string ''s3cret''" and ?b = "bytes_of_string ''payload''"
  let ?m = "bytes_of_string (hex_EncodeToString (HMAC_SHA1 ?s ?b))"
  have "length ?m = 40"
    using length_sign [of ?s ?b] by (simp add: sign_def bytes_of_string_def)
  then have "?m \<noteq> []" by auto
  then have ne: "flip_first_bit ?m \<noteq> ?m" by (rule flip_first_bit_neq)
  from verify_roundtrip [of ?s ?b] ne show ?thesis by blast
qed

lemma string_of_bytes_of_string: "string_of_bytes (bytes_of_string s) = s"
  by (induction s) (simp_all add: string_of_bytes_def bytes_of_string_def unat_of_char_byte)

lemma signed_request_simps:
  "Method (signed_request e event body) = ''POST''"
  "Header_Get (signed_request e event body) ''X-Github-Event'' = event"
  "Header_Get (signed_request e event body) ''X-Hub-Signature'' =
     ''sha1='' @ sign (hookSecret e) (bytes_of_string body)"
  "Body (signed_request e event body) = Inr (bytes_of_string body)"
  by (simp_all add: signed_request_def Header_Get_def)

lemma signed_request_verifies: "signature_verifies e (signed_request e event body)"
  by (simp add: signature_verifies_iff signed_request_simps)

lemma example_Unmarshal:
  "json_Unmarshal example_world (bytes_of_string push_master_body) =
     Inr \<lparr>Ref = ''refs/heads/master'', Repository_Name = ''foo'', Repository_URL = [], Repos = []\<rparr>"
  "json_Unmarshal example_world (bytes_of_string push_dev_body) =
     Inr \<lparr>Ref = ''refs/heads/dev'', Repository_Name = ''foo'', Repository_URL = [], Repos = []\<rparr>"
  "json_Unmarshal example_world (bytes_of_string push_short_body) =
     Inr \<lparr>Ref = ''refs/heads'', Repository_Name = ''foo'', Repository_URL = [], Repos = []\<rparr>"
  "json_Unmarshal example_world (bytes_of_string ''not json'') = Inl (Err ''invalid character'')"
  by (simp_all add: example_world_def string_of_bytes_of_string example_bodies_def
        push_master_body_def push_dev_body_def push_short_body_def sync_body_def)

lemma fetches_simps:
  "fetches [] = []"
  "fetches (E_pullReadme r # es) = r # fetches es"
  "fetches (E_log m # es) = fetches es"
  "fetches (E_os_Create p # es) = fetches es"
  "fetches (E_tmpl_Execute p n # es) = fetches es"
  "fetches (E_exec c a # es) = fetches es"
  "fetches (es @ es') = fetches es @ fetches es'"
  by (simp_all add: fetches_def)

lemma effects_respond: "effects (respond code es) = es" "reply (respond code es) = Reply code []"
  by (simp_all add: respond_def)

lemma write_readmes_fetches:
  "(case write_readmes w e rs es of Inl r \<Rightarrow> fetches (effects r) | Inr es' \<Rightarrow> fetches es')
   = fetches es"
proof (induction rs arbitrary: es)
  case Nil
  then show ?case by simp
next
  case (Cons p rs)
  obtain repo readme where p: "p = (repo, readme)" by (cases p)
  show ?case
  proof (cases "os_Create w [hugoSource e, dir e, repo @ ''.md'']")
    case (Some err)
    then show ?thesis by (simp add: p Let_def effects_respond fetches_simps)
  next
    case None
    note oc = None
    show ?thesis
    proof (cases "tmpl_Execute w [hugoSource e, dir e, repo @ ''.md''] repo
                    (string_of_bytes readme) (time_Now w)")
      case (Some err)
      then show ?thesis using oc by (simp add: p Let_def effects_respond fetches_simps)
    next
      case None
      then show ?thesis
        using oc Cons.IH [of "es @ [E_os_Create [hugoSource e, dir e, repo @ ''.md''],
                                   E_tmpl_Execute [hugoSource e, dir e, repo @ ''.md''] repo]"]
        by (simp add: p Let_def fetches_simps)
    qed
  qed
qed

lemma ServeHTTP_output_fetches:
  "fetches (effects (ServeHTTP_output w e rs es)) = fetches es"
proof (cases "write_readmes w e rs es")
  case (Inl r)
  then show ?thesis using write_readmes_fetches [of w e rs es]
    by (simp add: ServeHTTP_output_def)
next
  case (Inr es')
  then have f: "fetches es' = fetches es" using write_readmes_fetches [of w e rs es] by simp
  obtain out err where x: "exec_CombinedOutput w (hugoCmd e) (hugo_args e) = (out, err)"
    by (cases "exec_CombinedOutput w (hugoCmd e) (hugo_args e)")
  show ?thesis
    by (cases err) (simp_all add: ServeHTTP_output_def Inr x effects_respond fetches_simps f)
qed

lemma dispatch_push_fetches:
  assumes "event \<noteq> ''sync-all''" "length (strings_Split (Ref req) (CHR ''/'')) = 3"
    "strings_Split (Ref req) (CHR ''/'') ! 2 = ''master''"
  shows "fetches (effects (ServeHTTP_dispatch w e event req)) = [Repository_Name req]"
proof -
  obtain readme err where pr: "pullReadme w (Repository_Name req) (githubToken e) = (readme, err)"
    by (cases "pullReadme w (Repository_Name req) (githubToken e)")
  show ?thesis using assms
    by (cases err)
       (simp_all add: ServeHTTP_dispatch_def Let_def pr effects_respond fetches_simps
          ServeHTTP_output_fetches)
qed


text \<open>
  Two requests evaluated to the end: a signed push to \<^verbatim>\<open>master\<close> of \<^verbatim>\<open>foo\<close> fetches
  the document, writes one file, runs the site generator and replies 200; a signed
  push to \<^verbatim>\<open>master\<close> of \<^verbatim>\<open>b\<close> replies 500 after the failed fetch.
\<close>

lemma example_push_master:
  "ServeHTTP example_world example_env (signed_request example_env ''push'' push_master_body) =
     respond 200
       [E_pullReadme ''foo'',
        E_os_Create [''/hugoSource'', ''content/project'', ''foo.md''],
        E_tmpl_Execute [''/hugoSource'', ''content/project'', ''foo.md''] ''foo'',
        E_exec ''/bin/hugo'' (hugo_args example_env),
        E_log []]"
proof -
  have p: "pullReadme example_world ''foo'' ''t0ken'' = (bytes_of_string ''# foo'', None)"
    by (simp add: pullReadme_def example_world_def)
  have "ServeHTTP example_world example_env (signed_request example_env ''push'' push_master_body) =
      ServeHTTP_verified example_world example_env ''push'' (bytes_of_string push_master_body) (True, None)"
    using ServeHTTP_authenticated [OF signed_request_simps(1) signed_request_simps(4)
        signed_request_verifies, of example_env "''push''" push_master_body example_world]
    by (simp add: signed_request_simps)
  also have "\<dots> = ServeHTTP_dispatch example_world example_env ''push''
      \<lparr>Ref = ''refs/heads/master'', Repository_Name = ''foo'', Repository_URL = [], Repos = []\<rparr>"
    by (simp add: ServeHTTP_verified_def example_Unmarshal)
  also have "\<dots> = ServeHTTP_output example_world example_env
      [(''foo'', bytes_of_string ''# foo'')] [E_pullReadme ''foo'']"
    using p by (simp add: ServeHTTP_dispatch_def example_env_def)
  also have "\<dots> = respond 200
       [E_pullReadme ''foo'',
        E_os_Create [''/hugoSource'', ''content/project'', ''foo.md''],
        E_tmpl_Execute [''/hugoSource'', ''content/project'', ''foo.md''] ''foo'',
        E_exec ''/bin/hugo'' (hugo_args example_env),
        E_log []]"
  proof -
    have w: "os_Create example_world = (\<lambda>p. None)"
      "tmpl_Execute example_world = (\<lambda>p n r d. None)"
      "exec_CombinedOutput example_world = (\<lambda>c a. ([], None))"
      by (simp_all add: example_world_def)
    have e: "hugoSource example_env = ''/hugoSource''" "dir example_env = ''content/project''"
      "hugoCmd example_env = ''/bin/hugo''"
      by (simp_all add: example_env_def)
    show ?thesis
      by (simp add: ServeHTTP_output_def Let_def w e string_of_bytes_def)
  qed
  finally show ?thesis .
qed

lemma example_push_missing:
  "ServeHTTP example_world2 example_env (signed_request example_env ''push'' push_missing_body) =
     respond 500 [E_pullReadme ''b'', E_log ''b: non-200 status: 404 Not Found'']"
proof -
  have p: "pullReadme example_world2 ''b'' ''t0ken'' =
      (bytes_of_string ''Not Found'', Some (Err ''b: non-200 status: 404 Not Found''))"
    by (simp add: pullReadme_def example_world_def example_world2_def)
  have u: "json_Unmarshal example_world2 (bytes_of_string push_missing_body) =
      Inr \<lparr>Ref = ''refs/heads/master'', Repository_Name = ''b'', Repository_URL = [], Repos = []\<rparr>"
    by (simp add: example_world2_def string_of_bytes_of_string)
  have "ServeHTTP example_world2 example_env (signed_request example_env ''push'' push_missing_body) =
      ServeHTTP_verified example_world2 example_env ''push'' (bytes_of_string push_missing_body) (True, None)"
    using ServeHTTP_authenticated [OF signed_request_simps(1) signed_request_simps(4)
        signed_request_verifies, of example_env "''push''" push_missing_body example_world2]
    by (simp add: signed_request_simps)
  also have "\<dots> = ServeHTTP_dispatch example_world2 example_env ''push''
      \<lparr>Ref = ''refs/heads/master'', Repository_Name = ''b'', Repository_URL = [], Repos = []\<rparr>"
    by (simp add: ServeHTTP_verified_def u)
  also have "\<dots> = respond 500 [E_pullReadme ''b'', E_log ''b: non-200 status: 404 Not Found'']"
    by (simp add: ServeHTTP_dispatch_def example_env_def p Error_def)
  finally show ?thesis .
qed

text \<open>
  C7. For every ping event (a POST whose event header is \<^verbatim>\<open>ping\<close>) whose signature
  verifies, the handler replies 200 with the body \<^verbatim>\<open>pong\<close> and has no other effect:
  it fetches no document, writes no file and does not run the site generator.
\<close>

theorem ping_pong:
  assumes "Method r = ''POST''" "Header_Get r ''X-Github-Event'' = ''ping''"
    "signature_verifies e r"
  shows "ServeHTTP w e r = \<lparr>reply = Reply 200 (bytes_of_string ''pong''), effects = []\<rparr> \<and>
         fetches (effects (ServeHTTP w e r)) = [] \<and>
         \<not> writes_or_generates (effects (ServeHTTP w e r))"
proof -
  from assms(3) obtain body where b: "Body r = Inr body"
    by (auto simp: signature_verifies_iff)
  have "ServeHTTP w e r = ServeHTTP_verified w e ''ping'' body (True, None)"
    using ServeHTTP_authenticated [OF assms(1) b assms(3)] assms(2) by simp
  then have "ServeHTTP w e r = \<lparr>reply = Reply 200 (bytes_of_string ''pong''), effects = []\<rparr>"
    by (simp add: ServeHTTP_verified_def)
  then show ?thesis by (simp add: fetches_def writes_or_generates_def)
qed

theorem ping_pong_witness:
  \<open>signature_verifies example_env (signed_request example_env ''ping'' ''{"zen":"Keep it simple."}'') \<and>
   ServeHTTP example_world example_env (signed_request example_env ''ping'' ''{"zen":"Keep it simple."}'')
     = \<lparr>reply = Reply 200 (bytes_of_string ''pong''), effects = []\<rparr>\<close>
  using ping_pong [of \<open>signed_request example_env ''ping'' ''{"zen":"Keep it simple."}''\<close>
      example_env example_world]
  by (simp add: signed_request_simps signed_request_verifies)

text \<open>
  C5. For every authenticated push event whose body the JSON decoder accepts: when
  the ref does not split into exactly 3 segments at \<^verbatim>\<open>/\<close> the reply is 400; when it
  does and the third segment is not \<^verbatim>\<open>master\<close> the reply is 200 at once with no
  fetch; when the third segment is \<^verbatim>\<open>master\<close> the handler fetches exactly once, the
  repository named in the payload.
\<close>

theorem push_dispatch:
  assumes "Method r = ''POST''" "Header_Get r ''X-Github-Event'' = ''push''"
    "signature_verifies e r" "Body r = Inr body" "json_Unmarshal w body = Inr req"
  shows "(length (strings_Split (Ref req) (CHR ''/'')) \<noteq> 3 \<longrightarrow>
            ServeHTTP w e r = respond 400 []) \<and>
         (length (strings_Split (Ref req) (CHR ''/'')) = 3 \<and>
          strings_Split (Ref req) (CHR ''/'') ! 2 \<noteq> ''master'' \<longrightarrow>
            ServeHTTP w e r = respond 200 [] \<and> fetches (effects (ServeHTTP w e r)) = []) \<and>
         (length (strings_Split (Ref req) (CHR ''/'')) = 3 \<and>
          strings_Split (Ref req) (CHR ''/'') ! 2 = ''master'' \<longrightarrow>
            fetches (effects (ServeHTTP w e r)) = [Repository_Name req])"
proof -
  have "ServeHTTP w e r = ServeHTTP_verified w e ''push'' body (True, None)"
    using ServeHTTP_authenticated [OF assms(1,4,3)] assms(2) by simp
  then have d: "ServeHTTP w e r = ServeHTTP_dispatch w e ''push'' req"
    using assms(5) by (simp add: ServeHTTP_verified_def)
  have ne: "''push'' \<noteq> ''sync-all''" by simp
  show ?thesis
    unfolding d
    using dispatch_push_fetches [OF ne, of req w e]
    by (simp add: ServeHTTP_dispatch_def Let_def effects_respond fetches_simps)
qed

theorem push_dispatch_witness:
  "ServeHTTP example_world example_env (signed_request example_env ''push'' push_short_body)
     = respond 400 [] \<and>
   ServeHTTP example_world example_env (signed_request example_env ''push'' push_dev_body)
     = respond 200 [] \<and>
   fetches (effects (ServeHTTP example_world example_env
     (signed_request example_env ''push'' push_master_body))) = [''foo'']"
proof -
  have a: "ServeHTTP example_world example_env (signed_request example_env ''push'' push_short_body)
     = respond 400 []"
    using push_dispatch [OF signed_request_simps(1) signed_request_simps(2)
        signed_request_verifies signed_request_simps(4) example_Unmarshal(3)]
    by simp
  have b: "ServeHTTP example_world example_env (signed_request example_env ''push'' push_dev_body)
     = respond 200 []"
    using push_dispatch [OF signed_request_simps(1) signed_request_simps(2)
        signed_request_verifies signed_request_simps(4) example_Unmarshal(2)]
    by simp
  have c: "fetches (effects (ServeHTTP example_world example_env
     (signed_request example_env ''push'' push_master_body))) = [''foo'']"
    using push_dispatch [OF signed_request_simps(1) signed_request_simps(2)
        signed_request_verifies signed_request_simps(4) example_Unmarshal(1)]
    by simp
  from a b c show ?thesis by simp
qed

text \<open>
  C9. For every authenticated ping request the reply is \<^verbatim>\<open>pong\<close> whatever the body
  is and whatever the JSON decoder would say of it (the ping path never calls it),
  while an authenticated push or bulk-sync request whose body the decoder refuses is
  answered 400. (The bulk-sync request is refused before its body is looked at,
  at the event check.)
\<close>

theorem ping_ignores_body:
  assumes "Method r = ''POST''" "signature_verifies e r" "Body r = Inr body"
  shows "(Header_Get r ''X-Github-Event'' = ''ping'' \<longrightarrow>
            ServeHTTP w e r = \<lparr>reply = Reply 200 (bytes_of_string ''pong''), effects = []\<rparr>) \<and>
         (Header_Get r ''X-Github-Event'' = ''push'' \<or>
          Header_Get r ''X-Github-Event'' = ''sync-all'' \<longrightarrow>
            (\<exists>err. json_Unmarshal w body = Inl err) \<longrightarrow>
            ServeHTTP w e r = respond 400 [])"
proof (intro conjI impI)
  assume ev: "Header_Get r ''X-Github-Event'' = ''ping''"
  have "ServeHTTP w e r = ServeHTTP_verified w e ''ping'' body (True, None)"
    using ServeHTTP_authenticated [OF assms(1,3,2)] ev by simp
  then show "ServeHTTP w e r = \<lparr>reply = Reply 200 (bytes_of_string ''pong''), effects = []\<rparr>"
    by (simp add: ServeHTTP_verified_def)
next
  assume ev: "Header_Get r ''X-Github-Event'' = ''push'' \<or>
              Header_Get r ''X-Github-Event'' = ''sync-all''"
    and bad: "\<exists>err. json_Unmarshal w body = Inl err"
  from ev show "ServeHTTP w e r = respond 400 []"
  proof
    assume p: "Header_Get r ''X-Github-Event'' = ''push''"
    have "ServeHTTP w e r = ServeHTTP_verified w e ''push'' body (True, None)"
      using ServeHTTP_authenticated [OF assms(1,3,2)] p by simp
    then show ?thesis using bad by (auto simp: ServeHTTP_verified_def)
  next
    assume "Header_Get r ''X-Github-Event'' = ''sync-all''"
    then show ?thesis using ServeHTTP_not_push_ping [OF assms(1), of w e] by simp
  qed
qed

theorem ping_ignores_body_witness:
  "json_Unmarshal example_world (bytes_of_string ''not json'') = Inl (Err ''invalid character'') \<and>
   ServeHTTP example_world example_env (signed_request example_env ''ping'' ''not json'')
     = \<lparr>reply = Reply 200 (bytes_of_string ''pong''), effects = []\<rparr> \<and>
   ServeHTTP example_world example_env (signed_request example_env ''push'' ''not json'')
     = respond 400 [] \<and>
   ServeHTTP example_world example_env (signed_request example_env ''sync-all'' ''not json'')
     = respond 400 []"
proof -
  have a: "ServeHTTP example_world example_env (signed_request example_env ''ping'' ''not json'')
     = \<lparr>reply = Reply 200 (bytes_of_string ''pong''), effects = []\<rparr>"
    using ping_ignores_body [OF signed_request_simps(1) signed_request_verifies
        signed_request_simps(4), of example_env "''ping''" "''not json''" example_world]
    by (simp add: signed_request_simps)
  have b: "ServeHTTP example_world example_env (signed_request example_env ''push'' ''not json'')
     = respond 400 []"
    using ping_ignores_body [OF signed_request_simps(1) signed_request_verifies
        signed_request_simps(4), of example_env "''push''" "''not json''" example_world]
    by (simp add: signed_request_simps example_Unmarshal)
  have c: "ServeHTTP example_world example_env (signed_request example_env ''sync-all'' ''not json'')
     = respond 400 []"
    using ping_ignores_body [OF signed_request_simps(1) signed_request_verifies
        signed_request_simps(4), of example_env "''sync-all''" "''not json''" example_world]
    by (simp add: signed_request_simps example_Unmarshal)
  from a b c example_Unmarshal(4) show ?thesis by simp
qed






text \<open>
  C10. Writing the payload into the HMAC-SHA1 digest never returns an error, so
  the verifier's error is nil for every signature, body and secret, and the handler
  never answers 500 for a fault of the verification: whenever it replies with a
  status of 500 or more, either the body could not be read, or the request is a
  push whose signature verified (and the failure came later).
\<close>

theorem no_verification_fault:
  "snd (snd (hmac_Write (hmac_New secret) body)) = None \<and>
   snd (verifyWebhook mac body secret) = None \<and>
   (\<forall>n bs. reply (ServeHTTP w e r) = Reply n bs \<and> 500 \<le> n \<longrightarrow>
      (\<exists>err. Body r = Inl err) \<or>
      (Header_Get r ''X-Github-Event'' = ''push'' \<and> signature_verifies e r))"
proof (intro conjI allI impI)
  show "snd (snd (hmac_Write (hmac_New secret) body)) = None" by (simp add: hmac_Write_def)
next
  show "snd (verifyWebhook mac body secret) = None" by (simp add: verifyWebhook_eq)
next
  fix n bs
  assume a: "reply (ServeHTTP w e r) = Reply n bs \<and> 500 \<le> n"
  show "(\<exists>err. Body r = Inl err) \<or>
      (Header_Get r ''X-Github-Event'' = ''push'' \<and> signature_verifies e r)"
  proof (cases "Body r")
    case (Inl err)
    then show ?thesis by simp
  next
    case (Inr b)
    have m: "Method r = ''POST''"
      using a by (auto simp: ServeHTTP_def effects_respond split: if_splits)
    have ev: "Header_Get r ''X-Github-Event'' = ''push'' \<or> Header_Get r ''X-Github-Event'' = ''ping''"
      using a m by (auto simp: ServeHTTP_def Let_def effects_respond split: if_splits)
    have len: "\<not> length (Header_Get r ''X-Hub-Signature'') < 5"
      using a m ev Inr by (auto simp: ServeHTTP_def Let_def slice_from_def split: if_splits)
    have eq: "ServeHTTP w e r = ServeHTTP_verified w e (Header_Get r ''X-Github-Event'') b
        (drop 5 (Header_Get r ''X-Hub-Signature'') = sign (hookSecret e) b, None)"
      using m ev Inr len
      by (auto simp: ServeHTTP_def Let_def slice_from_def verifyWebhook_eq bytes_of_string_eq_iff)
    have sv: "signature_verifies e r"
      using a eq Inr
      by (auto simp: signature_verifies_iff ServeHTTP_verified_def effects_respond split: if_splits)
    have "Header_Get r ''X-Github-Event'' \<noteq> ''ping''"
      using a eq sv Inr
      by (auto simp: signature_verifies_iff ServeHTTP_verified_def)
    with ev sv show ?thesis by simp
  qed
qed

theorem no_verification_fault_witness:
  "reply (ServeHTTP example_world example_env unreadable_request) = Reply 500 [] \<and>
   (\<exists>err. Body unreadable_request = Inl err) \<and>
   reply (ServeHTTP example_world2 example_env
            (signed_request example_env ''push'' push_missing_body)) = Reply 500 [] \<and>
   Header_Get (signed_request example_env ''push'' push_missing_body) ''X-Github-Event'' = ''push'' \<and>
   signature_verifies example_env (signed_request example_env ''push'' push_missing_body)"
proof -
  have r: "reply (ServeHTTP example_world example_env unreadable_request) = Reply 500 []"
    by (simp add: ServeHTTP_def unreadable_request_def Header_Get_def Let_def effects_respond)
  have b: "Body unreadable_request = Inl (Err ''unexpected EOF'')"
    by (simp add: unreadable_request_def)
  from no_verification_fault [of "[]" "[]" "[]" example_world example_env
      unreadable_request, THEN conjunct2, THEN conjunct2, rule_format, of 500 "[]"] r b
  have a: "\<exists>err. Body unreadable_request = Inl err" by simp
  have r2: "reply (ServeHTTP example_world2 example_env
            (signed_request example_env ''push'' push_missing_body)) = Reply 500 []"
    by (simp add: example_push_missing effects_respond)
  have nb: "\<not> (\<exists>err. Body (signed_request example_env ''push'' push_missing_body) = Inl err)"
    by (simp add: signed_request_simps)
  from no_verification_fault [of "[]" "[]" "[]" example_world2 example_env
      "signed_request example_env ''push'' push_missing_body",
      THEN conjunct2, THEN conjunct2, rule_format, of 500 "[]"] r2 nb
  have c: "Header_Get (signed_request example_env ''push'' push_missing_body) ''X-Github-Event'' = ''push'' \<and>
      signature_verifies example_env (signed_request example_env ''push'' push_missing_body)"
    by simp
  from r a r2 c show ?thesis by blast
qed

text \<open>
  C1 (the code departs from the claim). The request the client \<^verbatim>\<open>syncall\<close> sends,
  event \<^verbatim>\<open>sync-all\<close> with a signature that verifies under the shared secret, is
  answered 400 with no fetch: the event check of lines 125 to 128 lets only
  \<^verbatim>\<open>push\<close> and \<^verbatim>\<open>ping\<close> through, so the bulk-sync branch of line 160 is never
  reached. The same for a concrete payload that names the resources \<^verbatim>\<open>a\<close> and \<^verbatim>\<open>b\<close>.
\<close>

theorem sync_all_rejected:
  "signature_verifies (e\<lparr>hookSecret := bytes_of_string secret\<rparr>) (syncall_request secret b) \<and>
   ServeHTTP w (e\<lparr>hookSecret := bytes_of_string secret\<rparr>) (syncall_request secret b)
     = respond 400 [] \<and>
   signature_verifies example_env (signed_request example_env ''sync-all'' sync_body) \<and>
   json_Unmarshal example_world (bytes_of_string sync_body) =
     Inr \<lparr>Ref = [], Repository_Name = [], Repository_URL = [], Repos = [''a'', ''b'']\<rparr> \<and>
   ServeHTTP example_world example_env (signed_request example_env ''sync-all'' sync_body)
     = \<lparr>reply = Reply 400 [], effects = []\<rparr>"
proof -
  have h: "Method (syncall_request secret b) = ''POST''"
    "Header_Get (syncall_request secret b) ''X-Github-Event'' = ''sync-all''"
    "Header_Get (syncall_request secret b) ''X-Hub-Signature'' =
       ''sha1='' @ sign (bytes_of_string secret) b"
    "Body (syncall_request secret b) = Inr b"
    by (simp_all add: syncall_request_def Header_Get_def)
  have a: "signature_verifies (e\<lparr>hookSecret := bytes_of_string secret\<rparr>) (syncall_request secret b)"
    by (simp add: signature_verifies_iff h)
  have b: "ServeHTTP w (e\<lparr>hookSecret := bytes_of_string secret\<rparr>) (syncall_request secret b)
     = respond 400 []"
    using ServeHTTP_not_push_ping [OF h(1)] by (simp add: h)
  have c: "ServeHTTP example_world example_env (signed_request example_env ''sync-all'' sync_body)
     = respond 400 []"
    using ServeHTTP_not_push_ping [OF signed_request_simps(1), of example_env "''sync-all''"]
    by (simp add: signed_request_simps)
  have d: "json_Unmarshal example_world (bytes_of_string sync_body) =
     Inr \<lparr>Ref = [], Repository_Name = [], Repository_URL = [], Repos = [''a'', ''b'']\<rparr>"
    by (simp add: example_world_def string_of_bytes_of_string example_bodies_def
        push_master_body_def push_dev_body_def push_short_body_def sync_body_def)
  from a b c d signed_request_verifies show ?thesis by (simp add: respond_def)
qed

text \<open>
  C2 (the code departs from the claim). With the signature header absent, or
  shorter than 5 characters, the slice \<^verbatim>\<open>[5:]\<close> of line 136 panics: the handler ends
  with no reply instead of a client error. With a header of 5 other characters
  followed by the right digest, the prefix is not checked and the request is served.
\<close>

theorem malformed_signature_header:
  "ServeHTTP w e unsigned_request = \<lparr>reply = Panic ''slice bounds out of range'', effects = []\<rparr> \<and>
   ServeHTTP w e short_signature_request
     = \<lparr>reply = Panic ''slice bounds out of range'', effects = []\<rparr> \<and>
   ServeHTTP w e (wrong_prefix_request e)
     = \<lparr>reply = Reply 200 (bytes_of_string ''pong''), effects = []\<rparr>"
proof -
  have a: "ServeHTTP w e unsigned_request = \<lparr>reply = Panic ''slice bounds out of range'', effects = []\<rparr>"
    by (simp add: ServeHTTP_def unsigned_request_def Header_Get_def Let_def slice_from_def)
  have b: "ServeHTTP w e short_signature_request
     = \<lparr>reply = Panic ''slice bounds out of range'', effects = []\<rparr>"
    by (simp add: ServeHTTP_def short_signature_request_def Header_Get_def Let_def slice_from_def)
  have h: "Method (wrong_prefix_request e) = ''POST''"
    "Header_Get (wrong_prefix_request e) ''X-Github-Event'' = ''ping''"
    "Header_Get (wrong_prefix_request e) ''X-Hub-Signature'' =
       ''md5=='' @ sign (hookSecret e) (bytes_of_string ''{}'')"
    "Body (wrong_prefix_request e) = Inr (bytes_of_string ''{}'')"
    by (simp_all add: wrong_prefix_request_def Header_Get_def)
  have v: "signature_verifies e (wrong_prefix_request e)"
    by (simp add: signature_verifies_iff h)
  have c: "ServeHTTP w e (wrong_prefix_request e)
     = \<lparr>reply = Reply 200 (bytes_of_string ''pong''), effects = []\<rparr>"
    using ServeHTTP_authenticated [OF h(1) h(4) v, of w] 
    by (simp add: h ServeHTTP_verified_def)
  from a b c show ?thesis by simp
qed

lemma sync_measure_init: "sync_measure (sync_init repos) = 5 * length repos + 4"
  by (simp add: sync_measure_def sync_init_def)

lemma sync_run_bound:
  assumes "sync_run w token sched (sync_init repos) = Some s"
  shows "\<not> panicked s" "length sched \<le> 5 * length repos + 3"
proof -
  have inv: "sync_inv w token repos s"
    using sync_run_inv [OF sync_inv_init assms] .
  then show np: "\<not> panicked s" by (rule sync_invD(1))
  then have "1 \<le> sync_measure s" by (simp add: sync_measure_def)
  with sync_run_measure [OF assms] show "length sched \<le> 5 * length repos + 3"
    by (simp add: sync_measure_init)
qed

lemma example_pullReadme:
  "pullReadme example_world ''a'' ''t0ken'' = (bytes_of_string ''# a'', None)"
  "pullReadme example_world ''b'' ''t0ken'' =
     (bytes_of_string ''Not Found'', Some (Err ''b: non-200 status: 404 Not Found''))"
  by (simp_all add: pullReadme_def example_world_def)

lemma example_run:
  "sync_run example_world ''t0ken'' example_schedule (sync_init [''a'', ''b'']) = Some example_final"
  by (simp add: example_schedule_def sync_init_def sync_step_def caller_step_def worker_step_def
        closer_step_def example_pullReadme example_final_def)

lemma empty_run:
  "sync_run w token [G_main, G_closer, G_main] (sync_init []) =
     Some ((sync_init [])\<lparr>caller := M_return, closer := C_done, chan_closed := True\<rparr>)"
  by (simp add: sync_init_def sync_step_def caller_step_def closer_step_def)

text \<open>
  C3. For every list of \<open>N\<close> distinct names and every assignment of fetch outcomes
  to them, with \<open>K\<close> names whose fetch fails: \<^verbatim>\<open>syncAll\<close> returns, and what it returns
  is a mapping of exactly \<open>N - K\<close> entries, each name fetched without error mapped
  to its bytes and each failed name absent. On the goroutines: whatever the
  schedule, a run never panics, takes at most \<open>5 N + 3\<close> steps, can always be
  continued to the \<^verbatim>\<open>return\<close>, can go no further exactly when the caller is at its
  \<^verbatim>\<open>return\<close>, and there the mapping is the one described.
\<close>

theorem syncAll_partial_failure:
  assumes "distinct repos" "sync_run w token sched (sync_init repos) = Some s"
  shows "\<not> panicked s \<and>
         length sched \<le> 5 * length repos + 3 \<and>
         sync_stuck w token s = (caller s = M_return) \<and>
         (\<exists>sched' s'. sync_run w token sched' s = Some s' \<and> caller s' = M_return) \<and>
         (caller s = M_return \<longrightarrow>
            results s = syncAll w repos token \<and>
            card (dom (results s)) =
              length repos - length (filter (\<lambda>r. snd (pullReadme w r token) \<noteq> None) repos) \<and>
            dom (results s) = {r \<in> set repos. snd (pullReadme w r token) = None} \<and>
            (\<forall>r\<in>set repos. results s r =
               (case pullReadme w r token of
                  (resp, None) \<Rightarrow> Some resp
                | (resp, Some err) \<Rightarrow> None)))"
proof -
  have inv: "sync_inv w token repos s"
    using sync_run_inv [OF sync_inv_init assms(2)] .
  have st: "sync_stuck w token s = (caller s = M_return)"
    using sync_progress [OF inv] sync_returned_stuck [OF inv] by blast
  have fin: "caller s = M_return \<Longrightarrow> results s = syncAll w repos token"
    by (rule sync_final_results [OF inv])
  have app: "\<forall>r\<in>set repos. syncAll w repos token r =
               (case pullReadme w r token of
                  (resp, None) \<Rightarrow> Some resp
                | (resp, Some err) \<Rightarrow> None)"
    by (auto simp: syncAll_apply fetched_def split: prod.splits option.splits)
  show ?thesis
    using sync_run_bound [OF assms(2)] st sync_completes [OF inv] fin
      card_dom_syncAll [OF assms(1), of w token] dom_syncAll [of w repos token] app
    by simp
qed

theorem syncAll_partial_failure_witness:
  "distinct [''a'', ''b''] \<and>
   sync_run example_world ''t0ken'' example_schedule (sync_init [''a'', ''b'']) = Some example_final \<and>
   caller example_final = M_return \<and>
   sync_stuck example_world ''t0ken'' example_final \<and>
   results example_final = syncAll example_world [''a'', ''b''] ''t0ken'' \<and>
   card (dom (results example_final)) = 1 \<and>
   results example_final ''a'' = Some (bytes_of_string ''# a'') \<and>
   results example_final ''b'' = None"
proof -
  have d: "distinct [''a'', ''b'']" by simp
  have c: "caller example_final = M_return" by (simp add: example_final_def)
  have k: "length (filter (\<lambda>r. snd (pullReadme example_world r ''t0ken'') \<noteq> None) [''a'', ''b'']) = 1"
    by (simp add: example_pullReadme)
  note T = syncAll_partial_failure [OF d example_run]
  from T c have st: "sync_stuck example_world ''t0ken'' example_final" by blast
  from T c have r: "results example_final = syncAll example_world [''a'', ''b''] ''t0ken''"
    by blast
  from T c have "card (dom (results example_final)) =
      length [''a'', ''b''] -
      length (filter (\<lambda>r. snd (pullReadme example_world r ''t0ken'') \<noteq> None) [''a'', ''b''])"
    by blast
  then have cd: "card (dom (results example_final)) = 1" by (simp only: k) simp
  from st r cd
  have "sync_stuck example_world ''t0ken'' example_final \<and>
        results example_final = syncAll example_world [''a'', ''b''] ''t0ken'' \<and>
        card (dom (results example_final)) = 1"
    by blast
  moreover have "results example_final ''a'' = Some (bytes_of_string ''# a'')"
    "results example_final ''b'' = None"
    by (simp_all add: example_final_def)
  ultimately show ?thesis using d example_run c by blast
qed

text \<open>
  C8. \<^verbatim>\<open>syncAll\<close> on the empty list of names terminates and returns the empty
  mapping. No worker is started; the caller starts the closer and blocks in the
  drain loop, the closer finds the wait group at zero and closes the channel, and
  the drain loop ends with no entry: that run of three steps is written out, and
  every run from the empty list stays within three steps, has no worker, never
  panics, can go no further only at the \<^verbatim>\<open>return\<close>, and has the empty mapping there.
\<close>

theorem syncAll_empty:
  "syncAll w [] token = Map.empty \<and>
   sync_run w token [G_main, G_closer, G_main] (sync_init []) =
     Some ((sync_init [])\<lparr>caller := M_return, closer := C_done, chan_closed := True\<rparr>) \<and>
   (\<forall>sched s. sync_run w token sched (sync_init []) = Some s \<longrightarrow>
      \<not> panicked s \<and> length sched \<le> 3 \<and> workers s = [] \<and>
      sync_stuck w token s = (caller s = M_return) \<and>
      (caller s = M_return \<longrightarrow> results s = Map.empty))"
proof (intro conjI allI impI)
  show e: "syncAll w [] token = Map.empty" by (simp add: syncAll_def)
  show "sync_run w token [G_main, G_closer, G_main] (sync_init []) =
     Some ((sync_init [])\<lparr>caller := M_return, closer := C_done, chan_closed := True\<rparr>)"
    by (rule empty_run)
  fix sched s
  assume run: "sync_run w token sched (sync_init []) = Some s"
  have inv: "sync_inv w token [] s"
    using sync_run_inv [OF sync_inv_init run] .
  show "\<not> panicked s" by (rule sync_run_bound(1) [OF run])
  show "length sched \<le> 3" using sync_run_bound(2) [OF run] by simp
  show "workers s = []" using sync_invD(3) [OF inv] by simp
  show "sync_stuck w token s = (caller s = M_return)"
    using sync_progress [OF inv] sync_returned_stuck [OF inv] by blast
  show "results s = Map.empty" if "caller s = M_return"
    using sync_final_results [OF inv that] e by simp
qed

theorem syncAll_empty_witness:
  "sync_run example_world ''t0ken'' [G_main, G_closer, G_main] (sync_init []) =
     Some ((sync_init [])\<lparr>caller := M_return, closer := C_done, chan_closed := True\<rparr>) \<and>
   caller ((sync_init [])\<lparr>caller := M_return, closer := C_done, chan_closed := True\<rparr>) = M_return \<and>
   sync_stuck example_world ''t0ken''
     ((sync_init [])\<lparr>caller := M_return, closer := C_done, chan_closed := True\<rparr>) \<and>
   results ((sync_init [])\<lparr>caller := M_return, closer := C_done, chan_closed := True\<rparr>) = Map.empty \<and>
   workers ((sync_init [])\<lparr>caller := M_return, closer := C_done, chan_closed := True\<rparr>) = []"
proof -
  let ?s = "(sync_init [])\<lparr>caller := M_return, closer := C_done, chan_closed := True\<rparr>"
  note T = syncAll_empty [of example_world "''t0ken''"]
  from T have run: "sync_run example_world ''t0ken'' [G_main, G_closer, G_main] (sync_init []) = Some ?s"
    by blast
  have c: "caller ?s = M_return" by simp
  from T run have a: "sync_stuck example_world ''t0ken'' ?s = (caller ?s = M_return)"
    and b: "caller ?s = M_return \<longrightarrow> results ?s = Map.empty"
    and d: "workers ?s = []"
    by blast+
  from run c a b d show ?thesis by blast
qed

end
